theory Spec2Isabelle
  imports Main
begin

section \<open>The trigger extension point (src/extensionPoints/triggerExtension.ts)\<close>

text \<open>
  The embedding follows the class \<open>TriggerExtensionPoint\<close> and its concrete subclass
  \<open>RemoteTriggerExtensionPoint\<close>. Getters of the abstract class are the fields of the
  record \<open>config\<close>; the mutable fields of an instance are split in two records: the part
  the firing pipeline touches (\<open>firing_state\<close>) and the part the attach routines touch
  (\<open>dom_state\<close>). External collaborators (pipeline executor, context reader, selector
  wait, telemetry) are parameters collected in the record \<open>env\<close>; what the instance
  tells them is appended to the list \<open>effects\<close>.
\<close>

subsection \<open>Types of the source\<close>

type_synonym UUID = string

datatype Trigger =
    Load | Interval | Appear | Initialize
  | Blur | Click | Dblclick | Mouseover | Keydown | Keyup | Keypress | Change
  | Selectionchange | Statechange | Custom

datatype AttachMode = AttachOnce | AttachWatch

datatype TargetMode = TargetEventTarget | TargetRoot

text \<open>
  \<open>ReportMode\<close> is \<open>"once" | "all"\<close>. The third constructor stands for any other string a
  definition may carry at run time, which the \<open>default\<close> branch of \<open>shouldReport\<close> rejects.
\<close>

datatype ReportMode = ReportOnce | ReportAll | ReportOther string

datatype error =
    BusinessError string
  | Error string
  | TypeError string
  | PromiseCancelled

fun triggerName :: "Trigger \<Rightarrow> string" where
  "triggerName Load = ''load''"
| "triggerName Interval = ''interval''"
| "triggerName Appear = ''appear''"
| "triggerName Initialize = ''initialize''"
| "triggerName Blur = ''blur''"
| "triggerName Click = ''click''"
| "triggerName Dblclick = ''dblclick''"
| "triggerName Mouseover = ''mouseover''"
| "triggerName Keydown = ''keydown''"
| "triggerName Keyup = ''keyup''"
| "triggerName Keypress = ''keypress''"
| "triggerName Change = ''change''"
| "triggerName Selectionchange = ''selectionchange''"
| "triggerName Statechange = ''statechange''"
| "triggerName Custom = ''custom''"



record DebounceOptions =
  waitMillis :: "int option"
  leading :: "bool option"
  trailing :: "bool option"

record CustomEventOptions =
  eventName :: string

text \<open>
  The getters of the abstract class. \<open>trigger = None\<close> stands for a falsy value, which
  the test \<open>if (this.trigger)\<close> of \<open>run\<close> distinguishes.
\<close>

record config =
  trigger :: "Trigger option"
  attachMode :: AttachMode
  intervalMillis :: int
  allowBackground :: bool
  targetMode :: TargetMode
  reportMode :: ReportMode
  debounceOptions :: "DebounceOptions option"
  customTriggerOptions :: "CustomEventOptions option"
  triggerSelector :: "string option"

subsection \<open>Values, roots and extensions\<close>

datatype json = JNull | JString string | JNumber int | JObject "(string \<times> json) list"

text \<open>
  A \<open>ReaderRoot\<close> is the document or an element. \<open>Undefined\<close> is the JavaScript value
  that \<open>.get(0)\<close> yields on an empty selection.
\<close>

datatype node = Document | Element nat | Undefined

text \<open>A \<open>ReaderOutput\<close> is a JavaScript object: a finite map from property names to values.\<close>

type_synonym ReaderOutput = "string \<rightharpoonup> json"

record NativeEvent =
  eventType :: string
  detail :: json

record JQueryEvent =
  target :: node
  originalEvent :: "NativeEvent option"

record Extension =
  ext_id :: UUID

datatype effect =
    ReaderRead node
  | PipelineRun UUID node ReaderOutput
  | LoggerInfo UUID string
  | LoggerError UUID error
  | ReportError error UUID
  | ReportEvent string UUID
  | NotifyError string

record RunOptions =
  nativeEvent :: "NativeEvent option"
  shouldRunExtension :: "(Extension \<Rightarrow> bool) option"

text \<open>
  The fields of an instance that a firing reads and writes, the effects it has had, and
  the state of the function that lodash's \<open>debounce\<close> returned to \<open>install\<close>: whether its
  timer is pending, and the arguments of the last call that has not been invoked yet.
\<close>

record firing_state =
  extensions :: "Extension list"
  reportedEvents :: "UUID set"
  reportedErrors :: "UUID set"
  effects :: "effect list"
  debounceTimer :: bool
  debounceLastArgs :: "(node list \<times> RunOptions) option"

text \<open>
  The collaborators the class imports and this repository's sources do not define. Each
  promise-returning one is given by its outcome: \<open>Inl\<close> is a rejection.
  \<^item> \<open>defaultReader\<close> and the reader's \<open>read\<close>;
  \<^item> \<open>makeServiceContext\<close> and \<open>reduceExtensionPipeline\<close>, per extension;
  \<^item> \<open>pickEventProperties\<close>, \<open>makeShouldRunExtensionForStateChange\<close>, \<open>pluralize\<close>;
  \<^item> \<open>guessSelectedElement\<close>, and \<open>closest\<close> for \<open>$(event.target).closest(selector).get(0)\<close>;
  \<^item> \<open>awaitElementOnce\<close> (the promise of the pair it returns) and \<open>$safeFind\<close>.
\<close>

record env =
  defaultReader :: "error + (node \<Rightarrow> error + ReaderOutput)"
  makeServiceContext :: "Extension \<Rightarrow> error + unit"
  reduceExtensionPipeline :: "Extension \<Rightarrow> ReaderOutput \<Rightarrow> node \<Rightarrow> error + unit"
  pickEventProperties :: "NativeEvent \<Rightarrow> json"
  makeShouldRunExtensionForStateChange :: "NativeEvent option \<Rightarrow> Extension \<Rightarrow> bool"
  pluralize :: "nat \<Rightarrow> string \<Rightarrow> string \<Rightarrow> string"
  guessSelectedElement :: "node option"
  closest :: "node \<Rightarrow> string option \<Rightarrow> node"
  awaitElementOnce :: "string \<Rightarrow> error + unit"
  safeFind :: "string \<Rightarrow> node list"

definition emit :: "effect \<Rightarrow> firing_state \<Rightarrow> firing_state" where
  "emit e s = s\<lparr>effects := effects s @ [e]\<rparr>"

subsection \<open>Report gate\<close>

definition shouldReport :: "config \<Rightarrow> bool \<Rightarrow> error + bool" where
  "shouldReport cfg alreadyReported =
     (case reportMode cfg of
        ReportOnce \<Rightarrow> Inr (\<not> alreadyReported)
      | ReportAll \<Rightarrow> Inr True
      | ReportOther m \<Rightarrow> Inl (BusinessError (''Invalid reportMode: '' @ m)))"

definition shouldReportError ::
  "config \<Rightarrow> UUID \<Rightarrow> firing_state \<Rightarrow> (error + bool) \<times> firing_state" where
  "shouldReportError cfg extensionId s =
     (let alreadyReported = (extensionId \<in> reportedErrors s);
          s' = s\<lparr>reportedErrors := insert extensionId (reportedErrors s)\<rparr>
      in (shouldReport cfg alreadyReported, s'))"

definition shouldReportEvent ::
  "config \<Rightarrow> UUID \<Rightarrow> firing_state \<Rightarrow> (error + bool) \<times> firing_state" where
  "shouldReportEvent cfg extensionId s =
     (let alreadyReported = (extensionId \<in> reportedEvents s);
          s' = s\<lparr>reportedEvents := insert extensionId (reportedEvents s)\<rparr>
      in (shouldReport cfg alreadyReported, s'))"

text \<open>A sequence of calls to the two gate methods of one instance, with their results.\<close>

datatype gate_call = ErrorGate UUID | EventGate UUID

definition gateCall ::
  "config \<Rightarrow> gate_call \<Rightarrow> firing_state \<Rightarrow> (error + bool) \<times> firing_state" where
  "gateCall cfg c s =
     (case c of ErrorGate i \<Rightarrow> shouldReportError cfg i s
              | EventGate i \<Rightarrow> shouldReportEvent cfg i s)"

primrec gateCalls :: "config \<Rightarrow> gate_call list \<Rightarrow> firing_state \<Rightarrow> (error + bool) list" where
  "gateCalls cfg [] s = []"
| "gateCalls cfg (c # cs) s =
     (case gateCall cfg c s of (r, s') \<Rightarrow> r # gateCalls cfg cs s')"

definition seen :: "firing_state \<Rightarrow> gate_call \<Rightarrow> bool" where
  "seen s c = (case c of ErrorGate i \<Rightarrow> i \<in> reportedErrors s
                       | EventGate i \<Rightarrow> i \<in> reportedEvents s)"

subsection \<open>Firing pipeline\<close>

text \<open>
  \<open>runExtension\<close>: the service context is awaited outside the \<open>try\<close>, the pipeline
  inside it, and the \<open>catch\<close> logs the error without throwing it again.
\<close>

definition runExtension ::
  "env \<Rightarrow> ReaderOutput \<Rightarrow> Extension \<Rightarrow> node \<Rightarrow> firing_state \<Rightarrow> (error + unit) \<times> firing_state" where
  "runExtension en ctxt extension root s =
     (case makeServiceContext en extension of
        Inl e \<Rightarrow> (Inl e, s)
      | Inr _ \<Rightarrow>
          (let s1 = emit (PipelineRun (ext_id extension) root ctxt) s
           in case reduceExtensionPipeline en extension ctxt root of
                Inr _ \<Rightarrow> (Inr (), emit (LoggerInfo (ext_id extension) ''Successfully ran trigger'') s1)
              | Inl e \<Rightarrow> (Inr (), emit (LoggerError (ext_id extension) e) s1)))"

definition stubTrue :: "Extension \<Rightarrow> bool" where
  "stubTrue x = True"

text \<open>
  The callback that \<open>_runTrigger\<close> maps over the extensions to run. It fulfils with the
  caught error, or with nothing (\<open>None\<close>, the value \<open>undefined\<close>).
\<close>

definition runExtensionCallback ::
  "config \<Rightarrow> env \<Rightarrow> ReaderOutput \<Rightarrow> node \<Rightarrow> Extension \<Rightarrow> firing_state
     \<Rightarrow> (error + error option) \<times> firing_state" where
  "runExtensionCallback cfg en readerContext root extension s =
     (case runExtension en readerContext extension root s of
        (Inl err, s1) \<Rightarrow>
          (case shouldReportError cfg (ext_id extension) s1 of
             (Inl thrown, s2) \<Rightarrow> (Inl thrown, s2)
           | (Inr report, s2) \<Rightarrow>
               (Inr (Some err),
                if report then emit (ReportError err (ext_id extension)) s2 else s2))
      | (Inr _, s1) \<Rightarrow>
          (case shouldReportEvent cfg (ext_id extension) s1 of
             (Inl thrown, s2) \<Rightarrow> (Inl thrown, s2)
           | (Inr report, s2) \<Rightarrow>
               (Inr None,
                if report then emit (ReportEvent ''TriggerRun'' (ext_id extension)) s2 else s2)))"

text \<open>
  The callbacks of one firing are independent tasks; the model runs them in the order of
  the list, each to completion, and keeps every outcome.
\<close>

primrec settleExtensions ::
  "config \<Rightarrow> env \<Rightarrow> ReaderOutput \<Rightarrow> node \<Rightarrow> Extension list \<Rightarrow> firing_state
     \<Rightarrow> (error + error option) list \<times> firing_state" where
  "settleExtensions cfg en readerContext root [] s = ([], s)"
| "settleExtensions cfg en readerContext root (x # xs) s =
     (case runExtensionCallback cfg en readerContext root x s of
        (r, s1) \<Rightarrow>
          (case settleExtensions cfg en readerContext root xs s1 of
             (rs, s2) \<Rightarrow> (r # rs, s2)))"

fun promiseAll :: "(error + 'a) list \<Rightarrow> error + 'a list" where
  "promiseAll [] = Inr []"
| "promiseAll (Inl e # rs) = Inl e"
| "promiseAll (Inr v # rs) = (case promiseAll rs of Inl e \<Rightarrow> Inl e | Inr vs \<Rightarrow> Inr (v # vs))"

text \<open>lodash \<open>compact\<close> on the callback results: the \<open>undefined\<close> entries are dropped.\<close>

definition compact :: "'a option list \<Rightarrow> 'a list" where
  "compact xs = List.map_filter (\<lambda>x. x) xs"

definition buildReaderContext :: "env \<Rightarrow> NativeEvent option \<Rightarrow> ReaderOutput \<Rightarrow> ReaderOutput" where
  "buildReaderContext en ev out =
     [''event'' \<mapsto> (case ev of Some e \<Rightarrow> pickEventProperties en e | None \<Rightarrow> JNull)] ++ out"

definition extensionsToRun :: "RunOptions \<Rightarrow> firing_state \<Rightarrow> Extension list" where
  "extensionsToRun opts s =
     filter (case shouldRunExtension opts of None \<Rightarrow> stubTrue | Some p \<Rightarrow> p) (extensions s)"

text \<open>\<open>_runTrigger\<close>: all extensions for one root.\<close>

definition runTrigger ::
  "config \<Rightarrow> env \<Rightarrow> node \<Rightarrow> RunOptions \<Rightarrow> firing_state \<Rightarrow> (error + error list) \<times> firing_state" where
  "runTrigger cfg en root opts s =
     (let toRun = extensionsToRun opts s
      in if length toRun = 0 then (Inr [], s)
         else
           (case defaultReader en of
              Inl e \<Rightarrow> (Inl e, s)
            | Inr reader \<Rightarrow>
                (let s1 = emit (ReaderRead root) s
                 in case reader root of
                      Inl e \<Rightarrow> (Inl e, s1)
                    | Inr out \<Rightarrow>
                        (let readerContext = buildReaderContext en (nativeEvent opts) out
                         in case settleExtensions cfg en readerContext root toRun s1 of
                              (results, s2) \<Rightarrow>
                                (case promiseAll results of
                                   Inl e \<Rightarrow> (Inl e, s2)
                                 | Inr errors \<Rightarrow> (Inr (compact errors), s2))))))"

text \<open>
  \<open>_runTriggersAndNotify\<close> takes only \<open>nativeEvent\<close> out of its options and hands
  \<open>{ nativeEvent }\<close> to \<open>_runTrigger\<close>. \<open>settleRoots\<close> is \<open>Promise.allSettled\<close> over the roots.
\<close>

primrec settleRoots ::
  "config \<Rightarrow> env \<Rightarrow> RunOptions \<Rightarrow> node list \<Rightarrow> firing_state
     \<Rightarrow> (error + error list) list \<times> firing_state" where
  "settleRoots cfg en opts [] s = ([], s)"
| "settleRoots cfg en opts (root # roots) s =
     (case runTrigger cfg en root opts s of
        (r, s1) \<Rightarrow>
          (case settleRoots cfg en opts roots s1 of
             (rs, s2) \<Rightarrow> (r # rs, s2)))"

definition flattenErrors :: "(error + error list) list \<Rightarrow> error list" where
  "flattenErrors results =
     concat (map (\<lambda>x. case x of Inr v \<Rightarrow> v | Inl reason \<Rightarrow> [reason]) results)"

definition notifyErrors :: "env \<Rightarrow> error list \<Rightarrow> firing_state \<Rightarrow> firing_state" where
  "notifyErrors en errors s =
     (if length errors = 0 then s
      else
        (let subject = pluralize en (length errors) ''a trigger'' ''$$ triggers'';
             message = ''An error occurred running '' @ subject
         in emit (NotifyError message) s))"

definition runTriggersAndNotify ::
  "config \<Rightarrow> env \<Rightarrow> node list \<Rightarrow> RunOptions \<Rightarrow> firing_state \<Rightarrow> firing_state" where
  "runTriggersAndNotify cfg en roots opts s =
     (case settleRoots cfg en \<lparr>nativeEvent = nativeEvent opts, shouldRunExtension = None\<rparr> roots s of
        (results, s1) \<Rightarrow> notifyErrors en (flattenErrors results) s1)"

text \<open>
  Modelled from the spec: lodash's \<open>debounce\<close>, a library outside the repository, which
  \<open>install\<close> applies to the bound \<open>_runTriggersAndNotify\<close> when debounce options are
  configured (\<open>debounce(boundRun, waitMillis ?? 0, {...debounceOptions})\<close>). Calls within
  the wait window are coalesced according to the leading and trailing flags (lodash's
  defaults: leading off, trailing on), and an invocation uses the arguments of the call
  that triggers it. A call that finds no timer pending starts the timer and, with
  \<open>leading\<close>, invokes the function at once; any other call only stores its arguments. When
  the timer expires, which is a step of its own, the stored arguments are invoked if
  \<open>trailing\<close> is on. The length of the wait is not part of the model.
\<close>

definition leadingEdge :: "DebounceOptions \<Rightarrow> bool" where
  "leadingEdge opts = (case leading opts of Some b \<Rightarrow> b | None \<Rightarrow> False)"

definition trailingEdge :: "DebounceOptions \<Rightarrow> bool" where
  "trailingEdge opts = (case trailing opts of Some b \<Rightarrow> b | None \<Rightarrow> True)"

text \<open>
  \<open>install\<close> sets \<open>debouncedRunTriggersAndNotify\<close> to the bound \<open>_runTriggersAndNotify\<close>
  when there are no debounce options, and to the debounced function otherwise.
\<close>

definition debouncedRunTriggersAndNotify ::
  "config \<Rightarrow> env \<Rightarrow> node list \<Rightarrow> RunOptions \<Rightarrow> firing_state \<Rightarrow> firing_state" where
  "debouncedRunTriggersAndNotify cfg en roots opts s =
     (case debounceOptions cfg of
        None \<Rightarrow> runTriggersAndNotify cfg en roots opts s
      | Some dopts \<Rightarrow>
          if debounceTimer s then s\<lparr>debounceLastArgs := Some (roots, opts)\<rparr>
          else if leadingEdge dopts
          then runTriggersAndNotify cfg en roots opts
                 (s\<lparr>debounceTimer := True, debounceLastArgs := None\<rparr>)
          else s\<lparr>debounceTimer := True, debounceLastArgs := Some (roots, opts)\<rparr>)"

text \<open>The timer of the debounced function expires.\<close>

definition debounceTimerExpired :: "config \<Rightarrow> env \<Rightarrow> firing_state \<Rightarrow> firing_state" where
  "debounceTimerExpired cfg en s =
     (case debounceOptions cfg of
        None \<Rightarrow> s
      | Some dopts \<Rightarrow>
          if \<not> debounceTimer s then s
          else
            (case debounceLastArgs s of
               None \<Rightarrow> s\<lparr>debounceTimer := False\<rparr>
             | Some args \<Rightarrow>
                 if trailingEdge dopts
                 then runTriggersAndNotify cfg en (fst args) (snd args)
                        (s\<lparr>debounceTimer := False, debounceLastArgs := None\<rparr>)
                 else s\<lparr>debounceTimer := False, debounceLastArgs := None\<rparr>))"

definition eventHandler :: "config \<Rightarrow> env \<Rightarrow> JQueryEvent \<Rightarrow> firing_state \<Rightarrow> firing_state" where
  "eventHandler cfg en event s =
     (let element0 = target event;
          element1 = (if trigger cfg = Some Selectionchange
                      then (case guessSelectedElement en of Some el \<Rightarrow> el | None \<Rightarrow> Document)
                      else element0);
          element = (if targetMode cfg = TargetRoot
                     then closest en (target event) (triggerSelector cfg)
                     else element1)
      in debouncedRunTriggersAndNotify cfg en [element]
           \<lparr>nativeEvent = originalEvent event,
            shouldRunExtension =
              Some (if trigger cfg = Some Statechange
                    then makeShouldRunExtensionForStateChange en (originalEvent event)
                    else stubTrue)\<rparr> s)"

text \<open>Projections of the effect list used to state the properties.\<close>

definition serviceContextResolves :: "env \<Rightarrow> Extension \<Rightarrow> bool" where
  "serviceContextResolves en x =
     (case makeServiceContext en x of Inl e \<Rightarrow> False | Inr _ \<Rightarrow> True)"

definition readerReads :: "effect list \<Rightarrow> node list" where
  "readerReads es = concat (map (\<lambda>e. case e of ReaderRead r \<Rightarrow> [r] | _ \<Rightarrow> []) es)"

definition pipelineInputs :: "effect list \<Rightarrow> (UUID \<times> ReaderOutput) list" where
  "pipelineInputs es = concat (map (\<lambda>e. case e of PipelineRun i r c \<Rightarrow> [(i, c)] | _ \<Rightarrow> []) es)"

definition pipelineRuns :: "effect list \<Rightarrow> UUID list" where
  "pipelineRuns es = concat (map (\<lambda>e. case e of PipelineRun i r c \<Rightarrow> [i] | _ \<Rightarrow> []) es)"

definition notifications :: "effect list \<Rightarrow> string list" where
  "notifications es = concat (map (\<lambda>e. case e of NotifyError m \<Rightarrow> [m] | _ \<Rightarrow> []) es)"

definition reportedToCollector :: "effect list \<Rightarrow> (error \<times> UUID) list" where
  "reportedToCollector es = concat (map (\<lambda>e. case e of ReportError x i \<Rightarrow> [(x, i)] | _ \<Rightarrow> []) es)"

subsection \<open>Interval runner\<close>

text \<open>
  The function \<open>interval\<close>. Its loop runs until the signal is aborted, which may never
  happen, so the model takes fuel: one unit per test of the loop condition, \<open>None\<close> when
  the fuel runs out before the loop has ended. What the loop meets on its way is given by
  \<open>IntervalWorld\<close>: the outcome of the \<open>k\<close>-th call of the effect, the value of
  \<open>signal.aborted\<close> at the \<open>k\<close>-th test, and \<open>Date.now() - start\<close> at the end of the
  \<open>k\<close>-th iteration. The result is a sum so that a throw of \<open>interval\<close> would be a value.
\<close>

record IntervalArgs =
  args_intervalMillis :: int
  args_requestAnimationFrame :: bool

record IntervalWorld =
  effectGenerator :: "nat \<Rightarrow> error + unit"
  aborted :: "nat \<Rightarrow> bool"
  elapsed :: "nat \<Rightarrow> int"

datatype interval_event =
    Sleep int
  | AnimationFrame
  | EffectRun nat
  | Swallowed error
  | Completed

text \<open>The body of the \<open>try\<close>: the animation frame when asked for, then the effect.\<close>

definition tryBody :: "IntervalArgs \<Rightarrow> IntervalWorld \<Rightarrow> nat \<Rightarrow> (error + unit) \<times> interval_event list" where
  "tryBody a w k =
     (effectGenerator w k,
      (if args_requestAnimationFrame a then [AnimationFrame] else []) @ [EffectRun k])"

definition iteration :: "IntervalArgs \<Rightarrow> IntervalWorld \<Rightarrow> nat \<Rightarrow> interval_event list" where
  "iteration a w k =
     (let caught = (case fst (tryBody a w k) of Inl e \<Rightarrow> [Swallowed e] | Inr _ \<Rightarrow> []);
          sleepDuration = max 0 (args_intervalMillis a - elapsed w k)
      in snd (tryBody a w k) @ caught @ (if sleepDuration > 0 then [Sleep sleepDuration] else []))"

fun intervalLoop ::
  "nat \<Rightarrow> IntervalArgs \<Rightarrow> IntervalWorld \<Rightarrow> nat \<Rightarrow> interval_event list
     \<Rightarrow> (error + interval_event list) option" where
  "intervalLoop 0 a w k tr = None"
| "intervalLoop (Suc fuel) a w k tr =
     (if aborted w k then Some (Inr (tr @ [Completed]))
      else intervalLoop fuel a w (Suc k) (tr @ iteration a w k))"

definition interval :: "nat \<Rightarrow> IntervalArgs \<Rightarrow> IntervalWorld \<Rightarrow> (error + interval_event list) option" where
  "interval fuel a w = intervalLoop fuel a w 0 [Sleep (args_intervalMillis a)]"

definition effectCalls :: "interval_event list \<Rightarrow> nat list" where
  "effectCalls tr = concat (map (\<lambda>e. case e of EffectRun k \<Rightarrow> [k] | _ \<Rightarrow> []) tr)"

definition swallowedErrors :: "interval_event list \<Rightarrow> error list" where
  "swallowedErrors tr = concat (map (\<lambda>e. case e of Swallowed x \<Rightarrow> [x] | _ \<Rightarrow> []) tr)"

definition effectFailures :: "IntervalWorld \<Rightarrow> nat list \<Rightarrow> error list" where
  "effectFailures w ks =
     concat (map (\<lambda>k. case effectGenerator w k of Inl e \<Rightarrow> [e] | Inr _ \<Rightarrow> []) ks)"


subsection \<open>Listeners, observers and cancellation\<close>

text \<open>
  The part of an instance the attach routines change, together with the part of the page
  they change. \<open>listeners\<close> counts, per node and event name, the registrations of
  \<open>boundEventHandler\<close> made with jQuery's \<open>on\<close> (jQuery keeps a handler once per
  registration). \<open>cancelHandlers\<close> are the \<open>abort\<close> listeners of the signal of the
  current \<open>abortController\<close>; \<open>intervals\<close> are the interval loops that poll that signal.
  \<open>installedEvents\<close> is a JavaScript \<open>Set\<close>, kept in insertion order. \<open>domCalls\<close> records
  the calls of \<open>off\<close> and \<open>on\<close> in the order they are made.
\<close>

datatype mutation_callback = FireInitialize | ObserveAppear nat | AttachDOM

datatype observer =
    MutationObserver nat "string option" mutation_callback
  | IntersectionObserver nat "node list"

fun observerId :: "observer \<Rightarrow> nat" where
  "observerId (MutationObserver i sel cb) = i"
| "observerId (IntersectionObserver i els) = i"

datatype cancel_handler = Noop | CancelRun | DisconnectObserver nat | OffDocument string

datatype dom_call = Off "node list" string | On "node list" string

record dom_state =
  installedEvents :: "string list"
  cancelHandlers :: "cancel_handler list"
  listeners :: "node \<times> string \<Rightarrow> nat"
  observers :: "observer list"
  nextObserver :: nat
  intervals :: "IntervalArgs list"
  domCalls :: "dom_call list"

record extension_point =
  firing :: firing_state
  dom :: dom_state

datatype outcome = Done | Thrown error

definition off :: "node list \<Rightarrow> string \<Rightarrow> dom_state \<Rightarrow> dom_state" where
  "off els ev d =
     d\<lparr>listeners := (\<lambda>k. if fst k \<in> set els \<and> snd k = ev then 0 else listeners d k),
       domCalls := domCalls d @ [Off els ev]\<rparr>"

definition on :: "node list \<Rightarrow> string \<Rightarrow> dom_state \<Rightarrow> dom_state" where
  "on els ev d =
     d\<lparr>listeners := (\<lambda>k. listeners d k + (if snd k = ev then count_list els (fst k) else 0)),
       domCalls := domCalls d @ [On els ev]\<rparr>"

definition setAdd :: "string \<Rightarrow> string list \<Rightarrow> string list" where
  "setAdd x xs = (if x \<in> set xs then xs else xs @ [x])"

fun runCancelHandler :: "cancel_handler \<Rightarrow> dom_state \<Rightarrow> dom_state" where
  "runCancelHandler Noop d = d"
| "runCancelHandler CancelRun d = d"
| "runCancelHandler (DisconnectObserver i) d =
     d\<lparr>observers := filter (\<lambda>ob. observerId ob \<noteq> i) (observers d)\<rparr>"
| "runCancelHandler (OffDocument ev) d = off [Document] ev d"

text \<open>
  \<open>cancelObservers\<close>: \<open>abort()\<close> runs the registered handlers and makes the loops that poll
  the signal leave at their next test; the new controller has no handler and no loop.
\<close>

definition cancelObservers :: "dom_state \<Rightarrow> dom_state" where
  "cancelObservers d =
     (fold runCancelHandler (cancelHandlers d) d)\<lparr>cancelHandlers := [], intervals := []\<rparr>"

definition addCancelHandler :: "cancel_handler \<Rightarrow> dom_state \<Rightarrow> dom_state" where
  "addCancelHandler cb d = d\<lparr>cancelHandlers := cancelHandlers d @ [cb]\<rparr>"

text \<open>
  \<open>initialize(selector, callback, {target: document})\<close> of the vendored plugin: a new
  mutation observer. Its calls of the callback are steps of their own (\<open>AMutation\<close> below).
\<close>

definition initialize :: "string option \<Rightarrow> mutation_callback \<Rightarrow> dom_state \<Rightarrow> nat \<times> dom_state" where
  "initialize sel cb d =
     (nextObserver d,
      d\<lparr>observers := observers d @ [MutationObserver (nextObserver d) sel cb],
        nextObserver := Suc (nextObserver d)\<rparr>)"

definition isEmpty :: "string option \<Rightarrow> bool" where
  "isEmpty sel = (case sel of None \<Rightarrow> True | Some s \<Rightarrow> s = [])"

definition isDocument :: "node list \<Rightarrow> bool" where
  "isDocument els = (case els of [] \<Rightarrow> False | x # xs \<Rightarrow> x = Document)"

definition notIterable :: error where
  "notIterable = TypeError ''undefined is not iterable''"

definition noProperties :: error where
  "noProperties = TypeError ''Cannot read properties of undefined''"

definition noTriggerConfigured :: error where
  "noTriggerConfigured = BusinessError ''No trigger event configured for extension point''"

text \<open>
  \<open>getRoot\<close>. The result is \<open>Inr None\<close> when the wait was cancelled (the method returns
  \<open>undefined\<close>), \<open>Inl e\<close> when the wait fails with another error.
\<close>

definition getRoot :: "config \<Rightarrow> env \<Rightarrow> dom_state \<Rightarrow> (error + node list option) \<times> dom_state" where
  "getRoot cfg en d =
     (if isEmpty (triggerSelector cfg)
      then (Inr (Some [Document]), addCancelHandler Noop d)
      else
        (let rootSelector = (case triggerSelector cfg of Some s \<Rightarrow> s | None \<Rightarrow> []);
             d1 = addCancelHandler CancelRun d
         in case awaitElementOnce en rootSelector of
              Inl e \<Rightarrow> if e = PromiseCancelled then (Inr None, d1) else (Inl e, d1)
            | Inr _ \<Rightarrow> (Inr (Some (safeFind en rootSelector)), d1)))"

definition attachInterval :: "config \<Rightarrow> dom_state \<Rightarrow> dom_state" where
  "attachInterval cfg d =
     (let d1 = cancelObservers d
      in if intervalMillis cfg > 0
         then d1\<lparr>intervals := intervals d1 @
                  [\<lparr>args_intervalMillis = intervalMillis cfg,
                    args_requestAnimationFrame = (\<not> allowBackground cfg)\<rparr>]\<rparr>
         else d1)"

definition attachInitializeTrigger ::
  "config \<Rightarrow> env \<Rightarrow> node list option \<Rightarrow> extension_point \<Rightarrow> outcome \<times> extension_point" where
  "attachInitializeTrigger cfg en root i =
     (let i1 = i\<lparr>dom := cancelObservers (dom i)\<rparr>
      in if attachMode cfg = AttachOnce
         then
           (case root of
              None \<Rightarrow> (Thrown notIterable, i1)
            | Some els \<Rightarrow>
                (Done, i1\<lparr>firing := debouncedRunTriggersAndNotify cfg en els
                                      \<lparr>nativeEvent = None, shouldRunExtension = None\<rparr> (firing i1)\<rparr>))
         else
           (case initialize (triggerSelector cfg) FireInitialize (dom i1) of
              (ob, d2) \<Rightarrow> (Done, i1\<lparr>dom := addCancelHandler (DisconnectObserver ob) d2\<rparr>)))"

definition attachAppearTrigger :: "config \<Rightarrow> node list \<Rightarrow> dom_state \<Rightarrow> dom_state" where
  "attachAppearTrigger cfg els d =
     (let d1 = cancelObservers d;
          appear = nextObserver d1;
          d2 = d1\<lparr>observers := observers d1 @ [IntersectionObserver appear els],
                  nextObserver := Suc appear\<rparr>;
          d3 = (if attachMode cfg = AttachWatch
                then (case initialize (triggerSelector cfg) (ObserveAppear appear) d2 of
                        (ob, d') \<Rightarrow> addCancelHandler (DisconnectObserver ob) d')
                else d2)
      in addCancelHandler (DisconnectObserver appear) d3)"

definition attachDocumentTrigger :: "Trigger \<Rightarrow> dom_state \<Rightarrow> dom_state" where
  "attachDocumentTrigger t d =
     (let d1 = off [Document] (triggerName t) d;
          d2 = on [Document] (triggerName t) d1;
          d3 = d2\<lparr>installedEvents := setAdd (triggerName t) (installedEvents d2)\<rparr>
      in addCancelHandler (OffDocument (triggerName t)) d3)"

definition domTrigger :: "config \<Rightarrow> string option" where
  "domTrigger cfg =
     (if trigger cfg = Some Custom
      then (case customTriggerOptions cfg of
              None \<Rightarrow> None
            | Some opts \<Rightarrow> if eventName opts = [] then None else Some (eventName opts))
      else map_option triggerName (trigger cfg))"

definition attachDOMTrigger ::
  "config \<Rightarrow> node list option \<Rightarrow> bool \<Rightarrow> dom_state \<Rightarrow> outcome \<times> dom_state" where
  "attachDOMTrigger cfg element watch d =
     (case domTrigger cfg of
        None \<Rightarrow> (Thrown noTriggerConfigured, d)
      | Some ev \<Rightarrow>
          (case element of
             None \<Rightarrow> (Thrown noProperties, d)
           | Some els \<Rightarrow>
               (let d1 = off els ev d;
                    d2 = on els ev d1;
                    d3 = d2\<lparr>installedEvents := setAdd ev (installedEvents d2)\<rparr>
                in if watch
                   then
                     (if isDocument els then (Done, d3)
                      else
                        (case initialize (triggerSelector cfg) AttachDOM (cancelObservers d3) of
                           (ob, d4) \<Rightarrow> (Done, addCancelHandler (DisconnectObserver ob) d4)))
                   else (Done, d3))))"

definition assertElement :: "Trigger \<Rightarrow> node list option \<Rightarrow> error + node list" where
  "assertElement t root =
     (case root of
        None \<Rightarrow> Inl noProperties
      | Some els \<Rightarrow>
          if isDocument els
          then Inl (Error (''Trigger '' @ triggerName t @ '' requires a selector''))
          else Inr els)"

definition liftDom :: "extension_point \<Rightarrow> outcome \<times> dom_state \<Rightarrow> outcome \<times> extension_point" where
  "liftDom i r = (fst r, i\<lparr>dom := snd r\<rparr>)"

text \<open>The \<open>switch\<close> of \<open>run\<close>, after the observers were cancelled and the root resolved.\<close>

definition runSwitch :: "config \<Rightarrow> env \<Rightarrow> node list option \<Rightarrow> extension_point \<Rightarrow> outcome \<times> extension_point" where
  "runSwitch cfg en root i =
     (case trigger cfg of
        None \<Rightarrow> (Thrown noTriggerConfigured, i)
      | Some t \<Rightarrow>
          (case t of
             Load \<Rightarrow>
               (case root of
                  None \<Rightarrow> (Thrown notIterable, i)
                | Some els \<Rightarrow>
                    (Done, i\<lparr>firing := debouncedRunTriggersAndNotify cfg en els
                                       \<lparr>nativeEvent = None, shouldRunExtension = None\<rparr> (firing i)\<rparr>))
           | Interval \<Rightarrow> (Done, i\<lparr>dom := attachInterval cfg (dom i)\<rparr>)
           | Initialize \<Rightarrow> attachInitializeTrigger cfg en root i
           | Appear \<Rightarrow>
               (case assertElement t root of
                  Inl e \<Rightarrow> (Thrown e, i)
                | Inr els \<Rightarrow> (Done, i\<lparr>dom := attachAppearTrigger cfg els (dom i)\<rparr>))
           | Selectionchange \<Rightarrow> (Done, i\<lparr>dom := attachDocumentTrigger t (dom i)\<rparr>)
           | Statechange \<Rightarrow> (Done, i\<lparr>dom := attachDocumentTrigger t (dom i)\<rparr>)
           | Custom \<Rightarrow> liftDom i (attachDOMTrigger cfg root False (dom i))
           | _ \<Rightarrow>
               (case assertElement t root of
                  Inl e \<Rightarrow> (Thrown e, i)
                | Inr els \<Rightarrow>
                    liftDom i (attachDOMTrigger cfg (Some els) (attachMode cfg = AttachWatch) (dom i)))))"

definition run :: "config \<Rightarrow> env \<Rightarrow> extension_point \<Rightarrow> outcome \<times> extension_point" where
  "run cfg en i =
     (case getRoot cfg en (cancelObservers (dom i)) of
        (Inl e, d1) \<Rightarrow> (Thrown e, i\<lparr>dom := d1\<rparr>)
      | (Inr root, d1) \<Rightarrow> runSwitch cfg en root (i\<lparr>dom := d1\<rparr>))"

definition uninstall :: "config \<Rightarrow> env \<Rightarrow> dom_state \<Rightarrow> dom_state" where
  "uninstall cfg en d =
     (let d1 = cancelObservers d
      in if isEmpty (triggerSelector cfg) then d1
         else
           (let current = safeFind en (case triggerSelector cfg of Some s \<Rightarrow> s | None \<Rightarrow> [])
            in if length current > 0
               then (fold (\<lambda>ev. off current ev) (installedEvents d1) d1)\<lparr>installedEvents := []\<rparr>
               else d1))"

text \<open>
  One iteration of a running interval loop: the effect given to \<open>interval\<close> by
  \<open>attachInterval\<close>, whose failure the loop swallows. Without a running loop nothing runs.
\<close>

definition intervalEffect :: "config \<Rightarrow> env \<Rightarrow> extension_point \<Rightarrow> (error + unit) \<times> extension_point" where
  "intervalEffect cfg en i =
     (case getRoot cfg en (dom i) of
        (Inl e, d1) \<Rightarrow> (Inl e, i\<lparr>dom := d1\<rparr>)
      | (Inr None, d1) \<Rightarrow> (Inl notIterable, i\<lparr>dom := d1\<rparr>)
      | (Inr (Some els), d1) \<Rightarrow>
          (Inr (), i\<lparr>dom := d1,
                     firing := debouncedRunTriggersAndNotify cfg en els
                                 \<lparr>nativeEvent = None, shouldRunExtension = None\<rparr> (firing i)\<rparr>))"

definition intervalIteration :: "config \<Rightarrow> env \<Rightarrow> extension_point \<Rightarrow> extension_point" where
  "intervalIteration cfg en i =
     (if intervals (dom i) = [] then i else snd (intervalEffect cfg en i))"

subsection \<open>Remote configuration\<close>






text \<open>The state of a new instance, and projections used to state the properties.\<close>

definition newDom :: dom_state where
  "newDom = \<lparr>installedEvents = [], cancelHandlers = [], listeners = (\<lambda>k. 0), observers = [],
     nextObserver = 0, intervals = [], domCalls = []\<rparr>"

definition newExtensionPoint :: "Extension list \<Rightarrow> extension_point" where
  "newExtensionPoint exts =
     \<lparr>firing = \<lparr>extensions = exts, reportedEvents = {}, reportedErrors = {}, effects = [],
                debounceTimer = False, debounceLastArgs = None\<rparr>,
      dom = newDom\<rparr>"

definition onCalls :: "dom_call list \<Rightarrow> (node list \<times> string) list" where
  "onCalls cs = concat (map (\<lambda>c. case c of On els ev \<Rightarrow> [(els, ev)] | Off els ev \<Rightarrow> []) cs)"

text \<open>The wait for the root selector fails with an error other than a cancellation.\<close>

definition rootWaitFails :: "config \<Rightarrow> env \<Rightarrow> bool" where
  "rootWaitFails cfg en =
     (case triggerSelector cfg of
        None \<Rightarrow> False
      | Some s \<Rightarrow>
          s \<noteq> [] \<and> (case awaitElementOnce en s of Inl e \<Rightarrow> e \<noteq> PromiseCancelled | Inr _ \<Rightarrow> False))"


subsection \<open>The steps of an instance on a page\<close>

text \<open>
  What can happen to an armed instance: \<open>run\<close> and \<open>uninstall\<close> are called, a mutation
  observer reports an element, a native event reaches a node, the intersection observer
  reports elements, a running interval loop makes an iteration, the debounce timer
  expires. Each step carries the answers of the collaborators at that moment.
\<close>

definition observe :: "nat \<Rightarrow> node \<Rightarrow> dom_state \<Rightarrow> dom_state" where
  "observe a el d =
     d\<lparr>observers :=
          map (\<lambda>ob. case ob of
                      IntersectionObserver j els \<Rightarrow>
                        if j = a \<and> el \<notin> set els then IntersectionObserver j (els @ [el]) else ob
                    | MutationObserver j sel cb \<Rightarrow> ob)
            (observers d)\<rparr>"

text \<open>The callbacks given to \<open>initialize\<close> by the three attach routines.\<close>

definition mutationCallback :: "config \<Rightarrow> env \<Rightarrow> nat \<Rightarrow> node \<Rightarrow> extension_point \<Rightarrow> extension_point" where
  "mutationCallback cfg en ob el i =
     (case find (\<lambda>x. observerId x = ob) (observers (dom i)) of
        Some (MutationObserver j sel cb) \<Rightarrow>
          (case cb of
             FireInitialize \<Rightarrow>
               i\<lparr>firing := debouncedRunTriggersAndNotify cfg en [el]
                              \<lparr>nativeEvent = None, shouldRunExtension = None\<rparr> (firing i)\<rparr>
           | ObserveAppear a \<Rightarrow> i\<lparr>dom := observe a el (dom i)\<rparr>
           | AttachDOM \<Rightarrow> i\<lparr>dom := snd (attachDOMTrigger cfg (Some [el]) False (dom i))\<rparr>)
      | _ \<Rightarrow> i)"

text \<open>The callback of the intersection observer of \<open>attachAppearTrigger\<close>.\<close>

definition intersectionCallback ::
  "config \<Rightarrow> env \<Rightarrow> nat \<Rightarrow> node list \<Rightarrow> extension_point \<Rightarrow> extension_point" where
  "intersectionCallback cfg en ob intersecting i =
     (case find (\<lambda>x. observerId x = ob) (observers (dom i)) of
        Some (IntersectionObserver j els) \<Rightarrow>
          i\<lparr>firing := debouncedRunTriggersAndNotify cfg en (filter (\<lambda>x. x \<in> set els) intersecting)
                         \<lparr>nativeEvent = None, shouldRunExtension = None\<rparr> (firing i)\<rparr>
      | _ \<Rightarrow> i)"

text \<open>
  A native event named \<open>name\<close> reaching node \<open>n\<close>: jQuery calls the bound handler once per
  registration on that node for that name.
\<close>

definition handlerCalls :: "extension_point \<Rightarrow> node \<Rightarrow> string \<Rightarrow> nat" where
  "handlerCalls i n name = listeners (dom i) (n, name)"

definition deliver ::
  "config \<Rightarrow> env \<Rightarrow> node \<Rightarrow> string \<Rightarrow> JQueryEvent \<Rightarrow> extension_point \<Rightarrow> extension_point" where
  "deliver cfg en n name event i =
     i\<lparr>firing := ((eventHandler cfg en event) ^^ (handlerCalls i n name)) (firing i)\<rparr>"

text \<open>
  One native event travels along its propagation path: the target first, then its
  ancestors up to the document. The handler sees the same \<open>event.target\<close> at every node.
\<close>

definition dispatchEvent ::
  "config \<Rightarrow> env \<Rightarrow> node list \<Rightarrow> string \<Rightarrow> JQueryEvent \<Rightarrow> extension_point \<Rightarrow> extension_point" where
  "dispatchEvent cfg en path name event i = fold (\<lambda>n. deliver cfg en n name event) path i"

datatype action =
    ARun env
  | AUninstall env
  | AMutation env nat node
  | AIntersect env nat "node list"
  | AEvent env "node list" string JQueryEvent
  | ATick env
  | ADebounce env

fun step :: "config \<Rightarrow> action \<Rightarrow> extension_point \<Rightarrow> extension_point" where
  "step cfg (ARun en) i = snd (run cfg en i)"
| "step cfg (AUninstall en) i = i\<lparr>dom := uninstall cfg en (dom i)\<rparr>"
| "step cfg (AMutation en ob el) i = mutationCallback cfg en ob el i"
| "step cfg (AIntersect en ob els) i = intersectionCallback cfg en ob els i"
| "step cfg (AEvent en path name event) i = dispatchEvent cfg en path name event i"
| "step cfg (ATick en) i = intervalIteration cfg en i"
| "step cfg (ADebounce en) i = i\<lparr>firing := debounceTimerExpired cfg en (firing i)\<rparr>"

definition exec :: "config \<Rightarrow> action list \<Rightarrow> extension_point \<Rightarrow> extension_point" where
  "exec cfg acts i = fold (step cfg) acts i"

text \<open>
  A jQuery selection holds each element once; \<open>$safeFind\<close> is a parameter, so this is
  asked of what it returns for the selector of the instance.
\<close>

definition selectionOk :: "config \<Rightarrow> env \<Rightarrow> bool" where
  "selectionOk cfg en =
     (case triggerSelector cfg of None \<Rightarrow> True | Some s \<Rightarrow> distinct (safeFind en s))"

fun wellFormed :: "config \<Rightarrow> action \<Rightarrow> bool" where
  "wellFormed cfg (ARun en) = selectionOk cfg en"
| "wellFormed cfg (AUninstall en) = True"
| "wellFormed cfg (AMutation en ob el) = True"
| "wellFormed cfg (AIntersect en ob els) = True"
| "wellFormed cfg (AEvent en path name event) = True"
| "wellFormed cfg (ATick en) = True"
| "wellFormed cfg (ADebounce en) = True"

text \<open>
  Every \<open>on\<close> in the record of jQuery calls comes right after the \<open>off\<close> of the same
  elements and event name. \<open>guardedRev\<close> reads the record from the latest call back.
\<close>

fun guardedRev :: "dom_call list \<Rightarrow> bool" where
  "guardedRev [] = True"
| "guardedRev (Off els ev # cs) = guardedRev cs"
| "guardedRev (On els ev # Off els' ev' # cs) = (els' = els \<and> ev' = ev \<and> guardedRev cs)"
| "guardedRev (On els ev # On els' ev' # cs) = False"
| "guardedRev [On els ev] = False"

definition everyOnAfterOff :: "dom_call list \<Rightarrow> bool" where
  "everyOnAfterOff cs = guardedRev (rev cs)"


text \<open>The invariant of the listeners of one instance.\<close>

definition domInv :: "dom_state \<Rightarrow> bool" where
  "domInv d = ((\<forall>n name. listeners d (n, name) \<le> 1) \<and> everyOnAfterOff (domCalls d))"


text \<open>
  What the firings of a dispatch settle with, read off the collaborators: the errors with
  which \<open>makeServiceContext\<close> rejects, the outcome of one firing, and the number of errors
  in a list of settled firings.
\<close>

definition serviceErrors :: "env \<Rightarrow> Extension list \<Rightarrow> error list" where
  "serviceErrors en xs =
     concat (map (\<lambda>x. case makeServiceContext en x of Inl e \<Rightarrow> [e] | Inr _ \<Rightarrow> []) xs)"

definition firingOutcome :: "env \<Rightarrow> Extension list \<Rightarrow> node \<Rightarrow> error + error list" where
  "firingOutcome en exts root =
     (if exts = [] then Inr []
      else
        (case defaultReader en of
           Inl e \<Rightarrow> Inl e
         | Inr reader \<Rightarrow>
             (case reader root of
                Inl e \<Rightarrow> Inl e
              | Inr out \<Rightarrow> Inr (serviceErrors en exts))))"

definition errorCount :: "(error + error list) list \<Rightarrow> nat" where
  "errorCount results =
     sum_list (map (\<lambda>r. case r of Inr errors \<Rightarrow> length errors | Inl reason \<Rightarrow> 1) results)"


subsection \<open>Example instances\<close>

definition cfg0 :: config where
  "cfg0 = \<lparr>trigger = Some Load, attachMode = AttachOnce, intervalMillis = 0,
     allowBackground = False, targetMode = TargetEventTarget, reportMode = ReportOnce,
     debounceOptions = None, customTriggerOptions = None, triggerSelector = None\<rparr>"

definition fs0 :: firing_state where
  "fs0 = \<lparr>extensions = [], reportedEvents = {}, reportedErrors = {}, effects = [],
     debounceTimer = False, debounceLastArgs = None\<rparr>"

definition env0 :: env where
  "env0 = \<lparr>defaultReader = Inr (\<lambda>root. Inr Map.empty),
     makeServiceContext = (\<lambda>x. Inr ()),
     reduceExtensionPipeline = (\<lambda>x c r. Inr ()),
     pickEventProperties = (\<lambda>e. JObject [(''type'', JString (eventType e))]),
     makeShouldRunExtensionForStateChange = (\<lambda>ev x. True),
     pluralize = (\<lambda>n single plural. if n = 1 then single else plural),
     guessSelectedElement = None,
     closest = (\<lambda>n sel. n),
     awaitElementOnce = (\<lambda>sel. Inr ()),
     safeFind = (\<lambda>sel. [])\<rparr>"

definition ext1 :: Extension where
  "ext1 = \<lparr>ext_id = ''e1''\<rparr>"

definition ext2 :: Extension where
  "ext2 = \<lparr>ext_id = ''e2''\<rparr>"

definition fs1 :: firing_state where
  "fs1 = fs0\<lparr>extensions := [ext1]\<rparr>"

definition cfgAll :: config where
  "cfgAll = cfg0\<lparr>reportMode := ReportAll\<rparr>"

definition cfgState :: config where
  "cfgState = cfg0\<lparr>trigger := Some Statechange\<rparr>"

definition envCollide :: env where
  "envCollide = env0\<lparr>defaultReader := Inr (\<lambda>root. Inr [''event'' \<mapsto> JString ''reader''])\<rparr>"

definition envFail :: env where
  "envFail = env0\<lparr>reduceExtensionPipeline := (\<lambda>x c r. Inl (Error ''boom''))\<rparr>"

definition envNoMatch :: env where
  "envNoMatch = env0\<lparr>makeShouldRunExtensionForStateChange := (\<lambda>ev x. False)\<rparr>"

definition noOptions :: RunOptions where
  "noOptions = \<lparr>nativeEvent = None, shouldRunExtension = None\<rparr>"

definition clickEvent :: NativeEvent where
  "clickEvent = \<lparr>eventType = ''click'', detail = JNull\<rparr>"

definition stateEvent :: NativeEvent where
  "stateEvent = \<lparr>eventType = ''statechange'', detail = JNull\<rparr>"

definition stateChanged :: JQueryEvent where
  "stateChanged = \<lparr>target = Document, originalEvent = Some stateEvent\<rparr>"

definition args0 :: IntervalArgs where
  "args0 = \<lparr>args_intervalMillis = 1000, args_requestAnimationFrame = True\<rparr>"

definition world0 :: IntervalWorld where
  "world0 = \<lparr>effectGenerator = (\<lambda>k. if k = 1 then Inr () else Inl (Error ''effect'')),
     aborted = (\<lambda>k. 3 \<le> k),
     elapsed = (\<lambda>k. if k = 0 then 250 else 1500)\<rparr>"


definition cfgClick :: config where
  "cfgClick = cfg0\<lparr>trigger := Some Click\<rparr>"

definition cfgInterval :: config where
  "cfgInterval = cfg0\<lparr>trigger := Some Interval, triggerSelector := Some ''#root''\<rparr>"

definition envRootFails :: env where
  "envRootFails = env0\<lparr>awaitElementOnce := (\<lambda>sel. Inl (Error ''selector''))\<rparr>"


definition envTwo :: env where
  "envTwo = env0\<lparr>safeFind := (\<lambda>sel. [Element 1, Element 2])\<rparr>"


definition cfgWatch :: config where
  "cfgWatch = cfg0\<lparr>trigger := Some Click, attachMode := AttachWatch,
     triggerSelector := Some ''.btn''\<rparr>"


definition rearm :: "action list" where
  "rearm = [ARun envTwo, ARun envTwo, AMutation envTwo 1 (Element 3), AMutation envTwo 1 (Element 1)]"


definition envService :: env where
  "envService = env0\<lparr>makeServiceContext := (\<lambda>x. Inl (Error ''service''))\<rparr>"

definition envReader :: env where
  "envReader = env0\<lparr>defaultReader := Inl (Error ''reader'')\<rparr>"



definition clickAt2 :: JQueryEvent where
  "clickAt2 = \<lparr>target = Element 2, originalEvent = Some clickEvent\<rparr>"

definition nestedClick :: "action list" where
  "nestedClick = [ARun envTwo, ARun envTwo,
     AEvent envTwo [Element 2, Element 1, Document] ''click'' clickAt2]"


section \<open>Report gate: once and all\<close>

lemma length_gateCalls: "length (gateCalls cfg cs s) = length cs"
  by (induction cs arbitrary: s) (auto split: prod.splits)

lemma seen_gateCall: "seen (snd (gateCall cfg c s)) d = (seen s d \<or> d = c)"
  by (cases c; cases d)
    (auto simp: seen_def gateCall_def shouldReportError_def shouldReportEvent_def Let_def)

lemma fst_gateCall: "fst (gateCall cfg c s) = shouldReport cfg (seen s c)"
  by (cases c)
    (auto simp: seen_def gateCall_def shouldReportError_def shouldReportEvent_def Let_def)

lemma gateCalls_nth:
  "i < length cs \<Longrightarrow>
   gateCalls cfg cs s ! i = shouldReport cfg (seen s (cs ! i) \<or> cs ! i \<in> set (take i cs))"
proof (induction cs arbitrary: i s)
  case Nil
  then show ?case by simp
next
  case (Cons c cs)
  show ?case
  proof (cases i)
    case 0
    then show ?thesis
      using fst_gateCall [of cfg c s] by (auto split: prod.splits)
  next
    case (Suc j)
    with Cons.prems have j: "j < length cs" by simp
    obtain r s' where g: "gateCall cfg c s = (r, s')" by (cases "gateCall cfg c s")
    have "seen s' d = (seen s d \<or> d = c)" for d
      using seen_gateCall [of cfg c s d] g by simp
    then show ?thesis
      using Cons.IH [OF j, of s'] Suc g by auto
  qed
qed

text \<open>
  Claim C3. Take any sequence \<open>cs\<close> of calls to \<open>shouldReportError\<close> and
  \<open>shouldReportEvent\<close> on one instance, started in any state \<open>s\<close>, and its \<open>i\<close>-th call.
  Under \<open>reportMode = all\<close> the call returns true. Under \<open>reportMode = once\<close> it returns
  true exactly when its id was not yet recorded for its kind: neither in the set of \<open>s\<close> nor
  by an earlier call of the same kind with the same id, so the first call returns true and
  every later one false. The two kinds use separate sets: a call to one method never
  changes what the other returns, for any ids.
\<close>

theorem report_gate_once_all:
  "i < length cs \<Longrightarrow>
   (reportMode cfg = ReportAll \<longrightarrow> gateCalls cfg cs s ! i = Inr True) \<and>
   (reportMode cfg = ReportOnce \<longrightarrow>
      gateCalls cfg cs s ! i = Inr (\<not> seen s (cs ! i) \<and> cs ! i \<notin> set (take i cs))) \<and>
   fst (shouldReportEvent cfg x (snd (shouldReportError cfg y s))) = fst (shouldReportEvent cfg x s) \<and>
   fst (shouldReportError cfg x (snd (shouldReportEvent cfg y s))) = fst (shouldReportError cfg x s)"
  by (simp add: gateCalls_nth shouldReport_def shouldReportError_def shouldReportEvent_def Let_def)

theorem report_gate_once_all_witness:
  "gateCalls cfg0 [ErrorGate ''a'', EventGate ''a'', ErrorGate ''a'', ErrorGate ''b''] fs0
     = [Inr True, Inr True, Inr False, Inr True]
   \<and> gateCalls (cfg0\<lparr>reportMode := ReportAll\<rparr>) [ErrorGate ''a'', ErrorGate ''a''] fs0 ! 1 = Inr True
   \<and> gateCalls cfg0 [ErrorGate ''a'', EventGate ''a'', ErrorGate ''a'', ErrorGate ''b''] fs0 ! 2
       = Inr False"
  using report_gate_once_all
      [of 2 "[ErrorGate ''a'', EventGate ''a'', ErrorGate ''a'', ErrorGate ''b'']" cfg0 fs0]
    report_gate_once_all
      [of 1 "[ErrorGate ''a'', ErrorGate ''a'']" "cfg0\<lparr>reportMode := ReportAll\<rparr>" fs0]
  by (simp add: cfg0_def fs0_def gateCall_def shouldReportError_def shouldReportEvent_def
      shouldReport_def Let_def seen_def)

section \<open>Firing pipeline: what a firing appends to the effect list\<close>

lemmas firing_defs =
  runTriggersAndNotify_def debouncedRunTriggersAndNotify_def eventHandler_def notifyErrors_def
  flattenErrors_def runTrigger_def extensionsToRun_def stubTrue_def buildReaderContext_def
  Let_def emit_def runExtensionCallback_def runExtension_def shouldReportEvent_def
  shouldReportError_def shouldReport_def compact_def List.map_filter_def

lemmas example_defs =
  cfg0_def cfgAll_def cfgState_def fs0_def fs1_def env0_def envCollide_def envFail_def
  envNoMatch_def ext1_def ext2_def noOptions_def clickEvent_def stateEvent_def stateChanged_def

lemma projections_append [simp]:
  "readerReads (xs @ ys) = readerReads xs @ readerReads ys"
  "pipelineInputs (xs @ ys) = pipelineInputs xs @ pipelineInputs ys"
  "pipelineRuns (xs @ ys) = pipelineRuns xs @ pipelineRuns ys"
  "notifications (xs @ ys) = notifications xs @ notifications ys"
  "reportedToCollector (xs @ ys) = reportedToCollector xs @ reportedToCollector ys"
  by (simp_all add: readerReads_def pipelineInputs_def pipelineRuns_def notifications_def
      reportedToCollector_def)

lemma projections_Nil [simp]:
  "readerReads [] = []" "pipelineInputs [] = []" "pipelineRuns [] = []"
  "notifications [] = []" "reportedToCollector [] = []"
  by (simp_all add: readerReads_def pipelineInputs_def pipelineRuns_def notifications_def
      reportedToCollector_def)

lemma projections_Cons [simp]:
  "readerReads (e # es) = (case e of ReaderRead r \<Rightarrow> [r] | _ \<Rightarrow> []) @ readerReads es"
  "pipelineInputs (e # es) = (case e of PipelineRun i r c \<Rightarrow> [(i, c)] | _ \<Rightarrow> []) @ pipelineInputs es"
  "pipelineRuns (e # es) = (case e of PipelineRun i r c \<Rightarrow> [i] | _ \<Rightarrow> []) @ pipelineRuns es"
  "notifications (e # es) = (case e of NotifyError m \<Rightarrow> [m] | _ \<Rightarrow> []) @ notifications es"
  "reportedToCollector (e # es) = (case e of ReportError x i \<Rightarrow> [(x, i)] | _ \<Rightarrow> []) @ reportedToCollector es"
  by (simp_all add: readerReads_def pipelineInputs_def pipelineRuns_def notifications_def
      reportedToCollector_def)

lemma effects_emit [simp]: "effects (emit e s) = effects s @ [e]"
  by (simp add: emit_def)

lemma extensions_emit [simp]: "extensions (emit e s) = extensions s"
  by (simp add: emit_def)

lemma effects_shouldReportError [simp]: "effects (snd (shouldReportError cfg i s)) = effects s"
  by (simp add: shouldReportError_def Let_def)

lemma effects_shouldReportEvent [simp]: "effects (snd (shouldReportEvent cfg i s)) = effects s"
  by (simp add: shouldReportEvent_def Let_def)

text \<open>What one callback appends to the effect list.\<close>

lemma runExtension_effects:
  "effects (snd (runExtension en ctxt x root s)) =
     effects s @
     (case makeServiceContext en x of
        Inl e \<Rightarrow> []
      | Inr _ \<Rightarrow>
          [PipelineRun (ext_id x) root ctxt,
           (case reduceExtensionPipeline en x ctxt root of
              Inr _ \<Rightarrow> LoggerInfo (ext_id x) ''Successfully ran trigger''
            | Inl e \<Rightarrow> LoggerError (ext_id x) e)])"
  by (simp add: runExtension_def Let_def split: sum.splits)

lemma runExtension_result:
  "fst (runExtension en ctxt x root s) =
     (case makeServiceContext en x of Inl e \<Rightarrow> Inl e | Inr _ \<Rightarrow> Inr ())"
  by (simp add: runExtension_def Let_def split: sum.splits)

lemma callback_notifications:
  "notifications (effects (snd (runExtensionCallback cfg en ctxt root x s))) = notifications (effects s)"
proof -
  obtain r s1 where a: "runExtension en ctxt x root s = (r, s1)" by (cases "runExtension en ctxt x root s")
  have e1: "notifications (effects s1) = notifications (effects s)"
    using runExtension_effects [of en ctxt x root s] a by (simp split: sum.splits)
  obtain b s2 where b: "shouldReportError cfg (ext_id x) s1 = (b, s2)" by (cases "shouldReportError cfg (ext_id x) s1")
  obtain c s3 where c: "shouldReportEvent cfg (ext_id x) s1 = (c, s3)" by (cases "shouldReportEvent cfg (ext_id x) s1")
  have e2: "effects s2 = effects s1" using effects_shouldReportError [of cfg "ext_id x" s1] b by simp
  have e3: "effects s3 = effects s1" using effects_shouldReportEvent [of cfg "ext_id x" s1] c by simp
  show ?thesis
    by (simp add: runExtensionCallback_def a b c e1 e2 e3 split: sum.splits)
qed

lemma callback_readerReads:
  "readerReads (effects (snd (runExtensionCallback cfg en ctxt root x s))) = readerReads (effects s)"
proof -
  obtain r s1 where a: "runExtension en ctxt x root s = (r, s1)" by (cases "runExtension en ctxt x root s")
  have e1: "readerReads (effects s1) = readerReads (effects s)"
    using runExtension_effects [of en ctxt x root s] a by (simp split: sum.splits)
  obtain b s2 where b: "shouldReportError cfg (ext_id x) s1 = (b, s2)" by (cases "shouldReportError cfg (ext_id x) s1")
  obtain c s3 where c: "shouldReportEvent cfg (ext_id x) s1 = (c, s3)" by (cases "shouldReportEvent cfg (ext_id x) s1")
  have e2: "effects s2 = effects s1" using effects_shouldReportError [of cfg "ext_id x" s1] b by simp
  have e3: "effects s3 = effects s1" using effects_shouldReportEvent [of cfg "ext_id x" s1] c by simp
  show ?thesis
    by (simp add: runExtensionCallback_def a b c e1 e2 e3 split: sum.splits)
qed

lemma callback_pipelineInputs:
  "pipelineInputs (effects (snd (runExtensionCallback cfg en ctxt root x s))) =
     pipelineInputs (effects s) @ (if serviceContextResolves en x then [(ext_id x, ctxt)] else [])"
proof -
  obtain r s1 where a: "runExtension en ctxt x root s = (r, s1)" by (cases "runExtension en ctxt x root s")
  have e1: "pipelineInputs (effects s1) =
     pipelineInputs (effects s) @ (if serviceContextResolves en x then [(ext_id x, ctxt)] else [])"
    using runExtension_effects [of en ctxt x root s] a
    by (simp add: serviceContextResolves_def split: sum.splits)
  obtain b s2 where b: "shouldReportError cfg (ext_id x) s1 = (b, s2)" by (cases "shouldReportError cfg (ext_id x) s1")
  obtain c s3 where c: "shouldReportEvent cfg (ext_id x) s1 = (c, s3)" by (cases "shouldReportEvent cfg (ext_id x) s1")
  have e2: "effects s2 = effects s1" using effects_shouldReportError [of cfg "ext_id x" s1] b by simp
  have e3: "effects s3 = effects s1" using effects_shouldReportEvent [of cfg "ext_id x" s1] c by simp
  show ?thesis
    by (simp add: runExtensionCallback_def a b c e1 e2 e3 split: sum.splits)
qed

lemma settleExtensions_notifications:
  "notifications (effects (snd (settleExtensions cfg en ctxt root xs s))) = notifications (effects s)"
proof (induction xs arbitrary: s)
  case Nil
  then show ?case by simp
next
  case (Cons x xs)
  obtain r s1 where a: "runExtensionCallback cfg en ctxt root x s = (r, s1)"
    by (cases "runExtensionCallback cfg en ctxt root x s")
  have "notifications (effects s1) = notifications (effects s)"
    using callback_notifications [of cfg en ctxt root x s] a by simp
  then show ?case
    using Cons.IH [of s1] a by (auto split: prod.splits)
qed

lemma settleExtensions_readerReads:
  "readerReads (effects (snd (settleExtensions cfg en ctxt root xs s))) = readerReads (effects s)"
proof (induction xs arbitrary: s)
  case Nil
  then show ?case by simp
next
  case (Cons x xs)
  obtain r s1 where a: "runExtensionCallback cfg en ctxt root x s = (r, s1)"
    by (cases "runExtensionCallback cfg en ctxt root x s")
  have "readerReads (effects s1) = readerReads (effects s)"
    using callback_readerReads [of cfg en ctxt root x s] a by simp
  then show ?case
    using Cons.IH [of s1] a by (auto split: prod.splits)
qed

lemma settleExtensions_pipelineInputs:
  "pipelineInputs (effects (snd (settleExtensions cfg en ctxt root xs s))) =
     pipelineInputs (effects s) @
     map (\<lambda>x. (ext_id x, ctxt)) (filter (serviceContextResolves en) xs)"
proof (induction xs arbitrary: s)
  case Nil
  then show ?case by simp
next
  case (Cons x xs)
  obtain r s1 where a: "runExtensionCallback cfg en ctxt root x s = (r, s1)"
    by (cases "runExtensionCallback cfg en ctxt root x s")
  have "pipelineInputs (effects s1) =
     pipelineInputs (effects s) @ (if serviceContextResolves en x then [(ext_id x, ctxt)] else [])"
    using callback_pipelineInputs [of cfg en ctxt root x s] a by simp
  then show ?case
    using Cons.IH [of s1] a by (auto split: prod.splits)
qed

lemma runTrigger_notifications:
  "notifications (effects (snd (runTrigger cfg en root opts s))) = notifications (effects s)"
proof -
  have "notifications (effects s2) = notifications (effects s)"
    if "settleExtensions cfg en ctxt root xs (emit (ReaderRead root) s) = (rs, s2)" for ctxt xs rs s2
    using settleExtensions_notifications [of cfg en ctxt root xs "emit (ReaderRead root) s"] that
    by simp
  then show ?thesis
    by (auto simp: runTrigger_def Let_def split: sum.splits prod.splits)
qed

lemma settleRoots_notifications:
  "notifications (effects (snd (settleRoots cfg en opts roots s))) = notifications (effects s)"
proof (induction roots arbitrary: s)
  case Nil
  then show ?case by simp
next
  case (Cons root roots)
  obtain r s1 where a: "runTrigger cfg en root opts s = (r, s1)"
    by (cases "runTrigger cfg en root opts s")
  have "notifications (effects s1) = notifications (effects s)"
    using runTrigger_notifications [of cfg en root opts s] a by simp
  then show ?case
    using Cons.IH [of s1] a by (auto split: prod.splits)
qed


section \<open>One notification per dispatch\<close>

lemma extensions_shouldReport [simp]:
  "extensions (snd (shouldReportError cfg i s)) = extensions s"
  "extensions (snd (shouldReportEvent cfg i s)) = extensions s"
  by (simp_all add: shouldReportError_def shouldReportEvent_def Let_def)

lemma extensions_runExtension [simp]:
  "extensions (snd (runExtension en ctxt x root s)) = extensions s"
  by (simp add: runExtension_def Let_def split: sum.splits)

lemma fst_shouldReport_valid:
  "\<forall>m. reportMode cfg \<noteq> ReportOther m \<Longrightarrow> \<exists>b. shouldReport cfg a = Inr b"
  by (cases "reportMode cfg") (auto simp: shouldReport_def)

lemma callback_valid_mode:
  assumes "\<forall>m. reportMode cfg \<noteq> ReportOther m"
  shows "fst (runExtensionCallback cfg en ctxt root x s) =
      (case makeServiceContext en x of Inl e \<Rightarrow> Inr (Some e) | Inr u \<Rightarrow> Inr None)
    \<and> extensions (snd (runExtensionCallback cfg en ctxt root x s)) = extensions s"
proof -
  obtain r s1 where a: "runExtension en ctxt x root s = (r, s1)"
    by (cases "runExtension en ctxt x root s")
  have r: "r = (case makeServiceContext en x of Inl e \<Rightarrow> Inl e | Inr u \<Rightarrow> Inr ())"
    using runExtension_result [of en ctxt x root s] a by simp
  have e1: "extensions s1 = extensions s"
    using extensions_runExtension [of en ctxt x root s] a by simp
  obtain b where b: "shouldReport cfg (ext_id x \<in> reportedErrors s1) = Inr b"
    using fst_shouldReport_valid [OF assms] by blast
  obtain c where c: "shouldReport cfg (ext_id x \<in> reportedEvents s1) = Inr c"
    using fst_shouldReport_valid [OF assms] by blast
  show ?thesis
    by (simp add: runExtensionCallback_def a r b c e1 shouldReportError_def shouldReportEvent_def
        Let_def emit_def split: sum.splits)
qed

lemma settleExtensions_valid_mode:
  assumes "\<forall>m. reportMode cfg \<noteq> ReportOther m"
  shows "fst (settleExtensions cfg en ctxt root xs s) =
      map (\<lambda>x. case makeServiceContext en x of Inl e \<Rightarrow> Inr (Some e) | Inr u \<Rightarrow> Inr None) xs
    \<and> extensions (snd (settleExtensions cfg en ctxt root xs s)) = extensions s"
proof (induction xs arbitrary: s)
  case Nil
  then show ?case by simp
next
  case (Cons x xs)
  obtain r s1 where a: "runExtensionCallback cfg en ctxt root x s = (r, s1)"
    by (cases "runExtensionCallback cfg en ctxt root x s")
  from callback_valid_mode [OF assms, of en ctxt root x s] a
  have r: "r = (case makeServiceContext en x of Inl e \<Rightarrow> Inr (Some e) | Inr u \<Rightarrow> Inr None)"
    and e: "extensions s1 = extensions s" by simp_all
  obtain rs s2 where b: "settleExtensions cfg en ctxt root xs s1 = (rs, s2)"
    by (cases "settleExtensions cfg en ctxt root xs s1")
  from Cons.IH [of s1] b e
  have "rs = map (\<lambda>x. case makeServiceContext en x of Inl e \<Rightarrow> Inr (Some e) | Inr u \<Rightarrow> Inr None) xs"
    and "extensions s2 = extensions s" by simp_all
  then show ?case by (simp add: a b r)
qed

lemma promiseAll_fulfilled:
  "promiseAll (map (\<lambda>x. case makeServiceContext en x of Inl e \<Rightarrow> Inr (Some e) | Inr u \<Rightarrow> Inr None) xs)
     = Inr (map (\<lambda>x. case makeServiceContext en x of Inl e \<Rightarrow> Some e | Inr u \<Rightarrow> None) xs)"
  by (induction xs) (auto split: sum.splits)

lemma compact_serviceErrors:
  "compact (map (\<lambda>x. case makeServiceContext en x of Inl e \<Rightarrow> Some e | Inr u \<Rightarrow> None) xs)
     = serviceErrors en xs"
  by (induction xs) (auto simp: compact_def serviceErrors_def List.map_filter_def split: sum.splits)

lemma runTrigger_valid_mode:
  assumes "\<forall>m. reportMode cfg \<noteq> ReportOther m" and "shouldRunExtension opts = None"
  shows "fst (runTrigger cfg en root opts s) = firingOutcome en (extensions s) root
    \<and> extensions (snd (runTrigger cfg en root opts s)) = extensions s"
proof -
  have t: "extensionsToRun opts s = extensions s"
    using assms(2) by (simp add: extensionsToRun_def stubTrue_def)
  have "fst (settleExtensions cfg en ctxt root (extensions s) s1) =
      map (\<lambda>x. case makeServiceContext en x of Inl e \<Rightarrow> Inr (Some e) | Inr u \<Rightarrow> Inr None) (extensions s)
    \<and> extensions (snd (settleExtensions cfg en ctxt root (extensions s) s1)) = extensions s1"
    for ctxt s1
    by (rule settleExtensions_valid_mode [OF assms(1)])
  then have k: "rs = map (\<lambda>x. case makeServiceContext en x of Inl e \<Rightarrow> Inr (Some e) | Inr u \<Rightarrow> Inr None) (extensions s)
      \<and> extensions s2 = extensions s1"
    if "settleExtensions cfg en ctxt root (extensions s) s1 = (rs, s2)" for ctxt s1 rs s2
    using that by (metis fst_conv snd_conv)
  show ?thesis
    by (auto simp: runTrigger_def t firingOutcome_def Let_def promiseAll_fulfilled
        compact_serviceErrors dest!: k split: sum.splits prod.splits)
qed

lemma settleRoots_valid_mode:
  assumes "\<forall>m. reportMode cfg \<noteq> ReportOther m" and "shouldRunExtension opts = None"
  shows "fst (settleRoots cfg en opts roots s) = map (firingOutcome en (extensions s)) roots"
proof (induction roots arbitrary: s)
  case Nil
  then show ?case by simp
next
  case (Cons root roots)
  obtain r s1 where a: "runTrigger cfg en root opts s = (r, s1)"
    by (cases "runTrigger cfg en root opts s")
  from runTrigger_valid_mode [OF assms, of en root s] a
  have r: "r = firingOutcome en (extensions s) root" and e: "extensions s1 = extensions s"
    by simp_all
  obtain rs s2 where b: "settleRoots cfg en opts roots s1 = (rs, s2)"
    by (cases "settleRoots cfg en opts roots s1")
  from Cons.IH [of s1] b e have "rs = map (firingOutcome en (extensions s)) roots" by simp
  then show ?case by (simp add: a b r)
qed

lemma length_flattenErrors: "length (flattenErrors results) = errorCount results"
  by (induction results) (auto simp: flattenErrors_def errorCount_def split: sum.splits)

text \<open>The same, with the settled results named by \<open>firingOutcome\<close> and \<open>errorCount\<close>.\<close>

lemma dispatch_notifications:
  "notifications (effects (runTriggersAndNotify cfg en roots opts s)) =
     notifications (effects s) @
     (let n = errorCount (fst (settleRoots cfg en
                 \<lparr>nativeEvent = nativeEvent opts, shouldRunExtension = None\<rparr> roots s))
      in if n = 0 then []
         else [''An error occurred running '' @ pluralize en n ''a trigger'' ''$$ triggers''])
   \<and> ((\<forall>m. reportMode cfg \<noteq> ReportOther m) \<longrightarrow>
        fst (settleRoots cfg en \<lparr>nativeEvent = nativeEvent opts, shouldRunExtension = None\<rparr> roots s)
          = map (firingOutcome en (extensions s)) roots)"
proof -
  obtain rs s1 where a: "settleRoots cfg en
      \<lparr>nativeEvent = nativeEvent opts, shouldRunExtension = None\<rparr> roots s = (rs, s1)"
    by (cases "settleRoots cfg en \<lparr>nativeEvent = nativeEvent opts, shouldRunExtension = None\<rparr> roots s")
  have n: "notifications (effects s1) = notifications (effects s)"
    using settleRoots_notifications
      [of cfg en "\<lparr>nativeEvent = nativeEvent opts, shouldRunExtension = None\<rparr>" roots s] a
    by simp
  have l: "length (flattenErrors rs) = errorCount rs"
    by (rule length_flattenErrors)
  have z: "(flattenErrors rs = []) = (errorCount rs = 0)"
    using l by (metis length_0_conv)
  have first: "notifications (effects (runTriggersAndNotify cfg en roots opts s)) =
     notifications (effects s) @
     (let n = errorCount rs
      in if n = 0 then []
         else [''An error occurred running '' @ pluralize en n ''a trigger'' ''$$ triggers''])"
    using n l z by (simp add: runTriggersAndNotify_def a notifyErrors_def Let_def)
  have second: "rs = map (firingOutcome en (extensions s)) roots"
    if "\<forall>m. reportMode cfg \<noteq> ReportOther m"
    using settleRoots_valid_mode [OF that,
        of "\<lparr>nativeEvent = nativeEvent opts, shouldRunExtension = None\<rparr>" en roots s] a
    by simp
  from first second show ?thesis by (simp add: a)
qed

text \<open>
  Claim C5. For every call of \<open>_runTriggersAndNotify\<close>, over any list of roots and in any
  state: once the firings of all roots have settled, let \<open>n\<close> be the number of errors
  they leave, a fulfilled firing counting each error of its list and a rejected firing
  counting once. Then exactly one \<open>notify.error\<close> is shown when \<open>n\<close> is not zero, with
  the message \<open>An error occurred running\<close> followed by \<open>pluralize\<close> of \<open>n\<close>, and none
  when \<open>n\<close> is zero. Under a valid report mode each firing settles as follows: it fulfils
  with the empty list when there is no extension, rejects with the error of the reader
  when the reader fails, and otherwise fulfils with the errors the extensions were
  rejected with, in their order.
\<close>

theorem dispatch_notifies_once:
  "notifications (effects (runTriggersAndNotify cfg en roots opts s)) =
     notifications (effects s) @
     (let results = fst (settleRoots cfg en
                      \<lparr>nativeEvent = nativeEvent opts, shouldRunExtension = None\<rparr> roots s);
          n = sum_list (map (\<lambda>r. case r of Inr errors \<Rightarrow> length errors | Inl reason \<Rightarrow> 1)
                          results)
      in if n = 0 then []
         else [''An error occurred running '' @ pluralize en n ''a trigger'' ''$$ triggers''])
   \<and> ((\<forall>m. reportMode cfg \<noteq> ReportOther m) \<longrightarrow>
        fst (settleRoots cfg en \<lparr>nativeEvent = nativeEvent opts, shouldRunExtension = None\<rparr> roots s)
          = map (\<lambda>root.
                   if extensions s = [] then Inr []
                   else
                     (case defaultReader en of
                        Inl e \<Rightarrow> Inl e
                      | Inr reader \<Rightarrow>
                          (case reader root of
                             Inl e \<Rightarrow> Inl e
                           | Inr out \<Rightarrow>
                               Inr (concat (map (\<lambda>x. case makeServiceContext en x of
                                                       Inl e \<Rightarrow> [e] | Inr u \<Rightarrow> [])
                                              (extensions s))))))
              roots)"
proof -
  have o: "firingOutcome en (extensions s) =
      (\<lambda>root.
         if extensions s = [] then Inr []
         else
           (case defaultReader en of
              Inl e \<Rightarrow> Inl e
            | Inr reader \<Rightarrow>
                (case reader root of
                   Inl e \<Rightarrow> Inl e
                 | Inr out \<Rightarrow>
                     Inr (concat (map (\<lambda>x. case makeServiceContext en x of
                                             Inl e \<Rightarrow> [e] | Inr u \<Rightarrow> [])
                                    (extensions s))))))"
    by (rule ext) (simp add: firingOutcome_def serviceErrors_def cong: sum.case_cong)
  show ?thesis
    using dispatch_notifications [of cfg en roots opts s]
    unfolding o by (simp add: errorCount_def Let_def)
qed

theorem dispatch_notifies_once_witness:
  "notifications (effects (runTriggersAndNotify cfg0 env0 [Element 1, Element 2] noOptions fs1)) = []
   \<and> fst (runTrigger cfg0 envService (Element 1) noOptions fs1) = Inr [Error ''service'']
   \<and> notifications (effects (runTriggersAndNotify cfg0 envService [Element 1] noOptions fs1))
       = [''An error occurred running a trigger'']
   \<and> notifications (effects (runTriggersAndNotify cfg0 envService [Element 1, Element 2] noOptions fs1))
       = [''An error occurred running $$ triggers'']
   \<and> notifications (effects (runTriggersAndNotify cfg0 envReader [Element 1, Element 2] noOptions fs1))
       = [''An error occurred running $$ triggers'']"
proof -
  have m: "\<forall>m. reportMode cfg0 \<noteq> ReportOther m" by (simp add: cfg0_def)
  have o: "nativeEvent noOptions = None" "extensions fs1 = [ext1]"
    by (simp_all add: noOptions_def fs1_def fs0_def)
  have f: "defaultReader env0 = Inr (\<lambda>root. Inr Map.empty)"
    "defaultReader envService = Inr (\<lambda>root. Inr Map.empty)"
    "defaultReader envReader = Inl (Error ''reader'')"
    "makeServiceContext env0 = (\<lambda>x. Inr ())"
    "makeServiceContext envService = (\<lambda>x. Inl (Error ''service''))"
    by (simp_all add: env0_def envService_def envReader_def)
  have p: "pluralize env0 n a b = (if n = 1 then a else b)"
    "pluralize envService n a b = (if n = 1 then a else b)"
    "pluralize envReader n a b = (if n = 1 then a else b)" for n a b
    by (simp_all add: env0_def envService_def envReader_def)
  have t: "fst (runTrigger cfg0 envService (Element 1) noOptions fs1) = Inr [Error ''service'']"
    by (simp add: firing_defs example_defs envService_def)
  from dispatch_notifies_once [of cfg0 env0 "[Element 1, Element 2]" noOptions fs1]
    dispatch_notifies_once [of cfg0 envService "[Element 1]" noOptions fs1]
    dispatch_notifies_once [of cfg0 envService "[Element 1, Element 2]" noOptions fs1]
    dispatch_notifies_once [of cfg0 envReader "[Element 1, Element 2]" noOptions fs1]
    m o f p t
  show ?thesis
    by (simp add: fs1_def fs0_def)
qed

section \<open>The read context of a firing\<close>

lemma runTrigger_readerReads:
  assumes "extensionsToRun opts s \<noteq> []" and "defaultReader en = Inr reader"
  shows "readerReads (effects (snd (runTrigger cfg en root opts s))) = readerReads (effects s) @ [root]"
proof -
  have "readerReads (effects s2) = readerReads (effects s) @ [root]"
    if "settleExtensions cfg en ctxt root xs (emit (ReaderRead root) s) = (rs, s2)" for ctxt xs rs s2
    using settleExtensions_readerReads [of cfg en ctxt root xs "emit (ReaderRead root) s"] that
    by simp
  then show ?thesis
    using assms by (auto simp: runTrigger_def Let_def split: sum.splits prod.splits)
qed

lemma runTrigger_pipelineInputs:
  assumes "extensionsToRun opts s \<noteq> []" and "defaultReader en = Inr reader"
    and "reader root = Inr out"
  shows "pipelineInputs (effects (snd (runTrigger cfg en root opts s))) =
     pipelineInputs (effects s) @
     map (\<lambda>x. (ext_id x, buildReaderContext en (nativeEvent opts) out))
       (filter (serviceContextResolves en) (extensionsToRun opts s))"
proof -
  have "pipelineInputs (effects s2) = pipelineInputs (effects s) @
     map (\<lambda>x. (ext_id x, ctxt)) (filter (serviceContextResolves en) xs)"
    if "settleExtensions cfg en ctxt root xs (emit (ReaderRead root) s) = (rs, s2)" for ctxt xs rs s2
    using settleExtensions_pipelineInputs [of cfg en ctxt root xs "emit (ReaderRead root) s"] that
    by simp
  then show ?thesis
    using assms by (auto simp: runTrigger_def Let_def split: sum.splits prod.splits)
qed

lemma buildReaderContext_lookup:
  "buildReaderContext en ev out k =
     (case out k of
        Some v \<Rightarrow> Some v
      | None \<Rightarrow>
          if k = ''event''
          then Some (case ev of Some e \<Rightarrow> pickEventProperties en e | None \<Rightarrow> JNull)
          else None)"
  by (simp add: buildReaderContext_def map_add_def split: option.splits)

text \<open>
  Claim C2, as amended. For every firing with a non-empty set of extensions to run whose
  default reader is available, the reader is applied to the root exactly once. When that
  read succeeds, every pipeline started by the firing receives the same context, built
  from \<open>event\<close> (the projection of the native event, or null) and the reader's record,
  and on the key \<open>event\<close> the reader's value takes precedence over the projection.
\<close>

theorem read_context_reader_precedence:
  assumes "extensionsToRun opts s \<noteq> []" and "defaultReader en = Inr reader"
  shows "readerReads (effects (snd (runTrigger cfg en root opts s))) = readerReads (effects s) @ [root] \<and>
    (\<forall>out. reader root = Inr out \<longrightarrow>
       pipelineInputs (effects (snd (runTrigger cfg en root opts s))) =
         pipelineInputs (effects s) @
         map (\<lambda>x. (ext_id x, buildReaderContext en (nativeEvent opts) out))
           (filter (serviceContextResolves en) (extensionsToRun opts s)) \<and>
       (\<forall>k. buildReaderContext en (nativeEvent opts) out k =
          (case out k of
             Some v \<Rightarrow> Some v
           | None \<Rightarrow>
               if k = ''event''
               then Some (case nativeEvent opts of
                            Some e \<Rightarrow> pickEventProperties en e | None \<Rightarrow> JNull)
               else None)))"
  using runTrigger_readerReads [OF assms] runTrigger_pipelineInputs [OF assms]
    buildReaderContext_lookup
  by blast

text \<open>
  The claim as stated gives the native event's projection precedence. With a reader whose
  record has the key \<open>event\<close>, the pipeline receives the reader's value.
\<close>

theorem read_context_event_precedence_counterexample:
  "map (\<lambda>ic. snd ic ''event'')
     (pipelineInputs (effects (snd (runTrigger cfg0 envCollide (Element 1)
        \<lparr>nativeEvent = Some clickEvent, shouldRunExtension = None\<rparr> fs1))))
     = [Some (JString ''reader'')]
   \<and> pickEventProperties envCollide clickEvent = JObject [(''type'', JString ''click'')]
   \<and> Some (JString ''reader'') \<noteq> Some (pickEventProperties envCollide clickEvent)"
  by (simp add: runTrigger_def extensionsToRun_def stubTrue_def fs1_def fs0_def ext1_def
      envCollide_def env0_def cfg0_def clickEvent_def buildReaderContext_def Let_def emit_def
      runExtensionCallback_def runExtension_def shouldReportEvent_def shouldReportError_def
      shouldReport_def)

theorem read_context_reader_precedence_witness:
  "readerReads (effects (snd (runTrigger cfg0 envCollide (Element 1)
        \<lparr>nativeEvent = Some clickEvent, shouldRunExtension = None\<rparr> fs1))) = [Element 1]
   \<and> buildReaderContext envCollide (Some clickEvent) [''event'' \<mapsto> JString ''reader''] ''event''
       = Some (JString ''reader'')"
  using read_context_reader_precedence [of "\<lparr>nativeEvent = Some clickEvent, shouldRunExtension = None\<rparr>"
      fs1 envCollide "\<lambda>root. Inr [''event'' \<mapsto> JString ''reader'']" cfg0 "Element 1"]
  by (simp add: extensionsToRun_def stubTrue_def fs1_def fs0_def envCollide_def env0_def)


section \<open>Pipeline failures inside a firing\<close>

text \<open>
  Whatever the pipeline does, \<open>runExtension\<close> fulfils once the service context is
  there; the callback of \<open>_runTrigger\<close> then takes the success path.
\<close>

lemma runExtensionCallback_pipeline_failure:
  assumes "makeServiceContext en x = Inr u" and "reportMode cfg = ReportAll"
  shows "fst (runExtensionCallback cfg en ctxt root x s) = Inr None
    \<and> reportedToCollector (effects (snd (runExtensionCallback cfg en ctxt root x s)))
        = reportedToCollector (effects s)"
  using assms
  by (simp add: runExtensionCallback_def runExtension_def shouldReportEvent_def shouldReport_def
      Let_def emit_def split: sum.splits)

text \<open>
  Claim C1, evaluated at a failing input: one extension whose pipeline rejects, under
  \<open>reportMode = all\<close>, so that the gate allows the report. \<open>runExtension\<close> catches the
  error, so the firing returns no error, nothing reaches the error collector, and the run
  is reported as a successful \<open>TriggerRun\<close>.
\<close>

theorem pipeline_failure_swallowed:
  "reduceExtensionPipeline envFail ext1 (buildReaderContext envFail None Map.empty) (Element 1)
     = Inl (Error ''boom'')
   \<and> fst (shouldReportError cfgAll (ext_id ext1) fs1) = Inr True
   \<and> fst (runTrigger cfgAll envFail (Element 1) noOptions fs1) = Inr []
   \<and> pipelineRuns (effects (snd (runTrigger cfgAll envFail (Element 1) noOptions fs1))) = [''e1'']
   \<and> reportedToCollector (effects (snd (runTrigger cfgAll envFail (Element 1) noOptions fs1))) = []
   \<and> last (effects (snd (runTrigger cfgAll envFail (Element 1) noOptions fs1)))
       = ReportEvent ''TriggerRun'' ''e1''"
  by (simp add: firing_defs example_defs)


section \<open>The eligibility predicate of a state change\<close>

lemma runTrigger_no_eligible:
  "extensionsToRun opts s = [] \<Longrightarrow> runTrigger cfg en root opts s = (Inr [], s)"
  by (simp add: runTrigger_def)

text \<open>
  Claim C6, evaluated at a failing input: a \<open>statechange\<close> event for which the predicate
  built by the event handler accepts no extension. \<open>_runTriggersAndNotify\<close> does not pass
  the predicate on, so the reader is read and the pipeline of the extension runs.
\<close>

theorem statechange_predicate_dropped:
  "filter (makeShouldRunExtensionForStateChange envNoMatch (originalEvent stateChanged))
      (extensions fs1) = []
   \<and> readerReads (effects (eventHandler cfgState envNoMatch stateChanged fs1)) = [Document]
   \<and> pipelineRuns (effects (eventHandler cfgState envNoMatch stateChanged fs1)) = [''e1'']"
  by (simp add: firing_defs example_defs)


section \<open>The interval runner swallows effect failures\<close>

lemma interval_projections_append [simp]:
  "effectCalls (xs @ ys) = effectCalls xs @ effectCalls ys"
  "swallowedErrors (xs @ ys) = swallowedErrors xs @ swallowedErrors ys"
  by (simp_all add: effectCalls_def swallowedErrors_def)

lemma iteration_effectCalls [simp]: "effectCalls (iteration a w k) = [k]"
  by (auto simp: iteration_def tryBody_def effectCalls_def Let_def split: sum.splits)

lemma iteration_swallowed [simp]: "swallowedErrors (iteration a w k) = effectFailures w [k]"
  by (auto simp: iteration_def tryBody_def swallowedErrors_def effectFailures_def Let_def
      split: sum.splits)

lemma effectFailures_append [simp]:
  "effectFailures w (xs @ ys) = effectFailures w xs @ effectFailures w ys"
  by (simp add: effectFailures_def)

lemma completed_projections [simp]:
  "effectCalls [Completed] = []" "swallowedErrors [Completed] = []"
  "effectCalls [Sleep d] = []" "swallowedErrors [Sleep d] = []"
  by (simp_all add: effectCalls_def swallowedErrors_def)

lemma intervalLoop_never_throws: "intervalLoop fuel a w k tr \<noteq> Some (Inl e)"
  by (induction fuel arbitrary: k tr) auto

lemma intervalLoop_ends_on_abort:
  "intervalLoop fuel a w i tr = Some r \<Longrightarrow> \<exists>k. i \<le> k \<and> k < i + fuel \<and> aborted w k"
proof (induction fuel arbitrary: i tr)
  case 0
  then show ?case by simp
next
  case (Suc fuel)
  show ?case
  proof (cases "aborted w i")
    case True
    then show ?thesis by (intro exI [of _ i]) simp
  next
    case False
    with Suc.prems have "intervalLoop fuel a w (Suc i) (tr @ iteration a w i) = Some r" by simp
    from Suc.IH [OF this] obtain k where "Suc i \<le> k" "k < Suc i + fuel" "aborted w k" by blast
    then show ?thesis by (intro exI [of _ k]) simp
  qed
qed

lemma intervalLoop_runs_until_abort:
  "aborted w k \<Longrightarrow> \<forall>j. i \<le> j \<and> j < k \<longrightarrow> \<not> aborted w j \<Longrightarrow> i \<le> k \<Longrightarrow> k - i < fuel \<Longrightarrow>
   \<exists>tr'. intervalLoop fuel a w i tr = Some (Inr tr')
     \<and> effectCalls tr' = effectCalls tr @ [i..<k]
     \<and> swallowedErrors tr' = swallowedErrors tr @ effectFailures w [i..<k]"
proof (induction fuel arbitrary: i tr)
  case 0
  then show ?case by simp
next
  case (Suc fuel)
  show ?case
  proof (cases "i = k")
    case True
    with Suc.prems show ?thesis by (simp add: effectFailures_def)
  next
    case False
    with Suc.prems have lt: "i < k" by simp
    with Suc.prems have na: "\<not> aborted w i" by simp
    have "\<exists>tr'. intervalLoop fuel a w (Suc i) (tr @ iteration a w i) = Some (Inr tr')
       \<and> effectCalls tr' = effectCalls (tr @ iteration a w i) @ [Suc i..<k]
       \<and> swallowedErrors tr' = swallowedErrors (tr @ iteration a w i) @ effectFailures w [Suc i..<k]"
      using Suc.prems lt by (intro Suc.IH) auto
    then obtain tr' where t: "intervalLoop fuel a w (Suc i) (tr @ iteration a w i) = Some (Inr tr')"
      "effectCalls tr' = effectCalls (tr @ iteration a w i) @ [Suc i..<k]"
      "swallowedErrors tr' = swallowedErrors (tr @ iteration a w i) @ effectFailures w [Suc i..<k]"
      by blast
    have u: "[i..<k] = i # [Suc i..<k]" using lt by (simp add: upt_conv_Cons)
    have "effectFailures w [i..<k] = effectFailures w [i] @ effectFailures w [Suc i..<k]"
      unfolding u by (simp add: effectFailures_def)
    then show ?thesis
      using na t u by simp
  qed
qed

text \<open>
  Claim C7. For every period, every effect and every course of the signal: \<open>interval\<close>
  never ends with a throw; if it ends, the signal was aborted at one of the tests of the
  loop condition; and when the signal is first found aborted at test \<open>k\<close>, the loop has
  called the effect exactly \<open>k\<close> times, once per iteration \<open>0, \<dots>, k - 1\<close>, whichever
  of these calls failed, each failure having been caught and dropped, and then ends.
\<close>

theorem interval_swallows_effect_failures:
  "(\<forall>e. interval fuel a w \<noteq> Some (Inl e)) \<and>
   (interval fuel a w \<noteq> None \<longrightarrow> (\<exists>k<fuel. aborted w k)) \<and>
   (aborted w k \<and> (\<forall>j<k. \<not> aborted w j) \<and> k < fuel \<longrightarrow>
      (\<exists>tr. interval fuel a w = Some (Inr tr)
         \<and> effectCalls tr = [0..<k]
         \<and> swallowedErrors tr = effectFailures w [0..<k]))"
proof (intro conjI allI impI)
  fix e show "interval fuel a w \<noteq> Some (Inl e)"
    by (simp add: interval_def intervalLoop_never_throws)
next
  assume "interval fuel a w \<noteq> None"
  then obtain r where "intervalLoop fuel a w 0 [Sleep (args_intervalMillis a)] = Some r"
    by (auto simp: interval_def)
  from intervalLoop_ends_on_abort [OF this] show "\<exists>k<fuel. aborted w k" by auto
next
  assume h: "aborted w k \<and> (\<forall>j<k. \<not> aborted w j) \<and> k < fuel"
  then have "\<exists>tr'. intervalLoop fuel a w 0 [Sleep (args_intervalMillis a)] = Some (Inr tr')
     \<and> effectCalls tr' = effectCalls [Sleep (args_intervalMillis a)] @ [0..<k]
     \<and> swallowedErrors tr' = swallowedErrors [Sleep (args_intervalMillis a)] @ effectFailures w [0..<k]"
    by (intro intervalLoop_runs_until_abort) auto
  then show "\<exists>tr. interval fuel a w = Some (Inr tr)
         \<and> effectCalls tr = [0..<k]
         \<and> swallowedErrors tr = effectFailures w [0..<k]"
    by (simp add: interval_def)
qed

lemma world0_run:
  "interval 4 args0 world0 = Some (Inr
     [Sleep 1000,
      AnimationFrame, EffectRun 0, Swallowed (Error ''effect''), Sleep 750,
      AnimationFrame, EffectRun 1,
      AnimationFrame, EffectRun 2, Swallowed (Error ''effect''),
      Completed])"
  by (simp add: interval_def args0_def world0_def iteration_def tryBody_def Let_def
      eval_nat_numeral)

theorem interval_swallows_effect_failures_witness:
  "aborted world0 3 \<and> \<not> aborted world0 0 \<and> \<not> aborted world0 1 \<and> \<not> aborted world0 2
   \<and> interval 4 args0 world0 \<noteq> None
   \<and> (\<exists>tr. interval 4 args0 world0 = Some (Inr tr) \<and> effectCalls tr = [0, 1, 2]
        \<and> swallowedErrors tr = [Error ''effect'', Error ''effect''])
   \<and> interval 3 args0 world0 = None"
proof -
  have h: "aborted world0 3 \<and> (\<forall>j<3. \<not> aborted world0 j) \<and> (3::nat) < 4"
    by (simp add: world0_def)
  have f: "effectFailures world0 [0..<3] = [Error ''effect'', Error ''effect'']"
    by (simp add: effectFailures_def world0_def upt_rec)
  have u: "[0..<3] = [0, 1, 2::nat]"
    by (simp add: upt_rec)
  have n: "interval 3 args0 world0 = None"
    by (simp add: interval_def args0_def world0_def eval_nat_numeral)
  from interval_swallows_effect_failures [of 4 args0 world0 3] h f u n show ?thesis
    by auto
qed

section \<open>Cancelling never attaches\<close>

lemma onCalls_append [simp]: "onCalls (xs @ ys) = onCalls xs @ onCalls ys"
  by (simp add: onCalls_def)

lemma onCalls_simps [simp]:
  "onCalls [] = []" "onCalls [Off els ev] = []" "onCalls [On els ev] = [(els, ev)]"
  by (simp_all add: onCalls_def)

lemma off_fields [simp]:
  "listeners (off els ev d) k = (if fst k \<in> set els \<and> snd k = ev then 0 else listeners d k)"
  "domCalls (off els ev d) = domCalls d @ [Off els ev]"
  "observers (off els ev d) = observers d"
  "intervals (off els ev d) = intervals d"
  "cancelHandlers (off els ev d) = cancelHandlers d"
  "installedEvents (off els ev d) = installedEvents d"
  "nextObserver (off els ev d) = nextObserver d"
  by (simp_all add: off_def)

lemma on_fields [simp]:
  "listeners (on els ev d) k = listeners d k + (if snd k = ev then count_list els (fst k) else 0)"
  "domCalls (on els ev d) = domCalls d @ [On els ev]"
  "observers (on els ev d) = observers d"
  "intervals (on els ev d) = intervals d"
  "cancelHandlers (on els ev d) = cancelHandlers d"
  "installedEvents (on els ev d) = installedEvents d"
  "nextObserver (on els ev d) = nextObserver d"
  by (simp_all add: on_def)

lemma runCancelHandler_frame:
  "listeners (runCancelHandler h d) k \<le> listeners d k"
  "set (observers (runCancelHandler h d)) \<subseteq> set (observers d)"
  "onCalls (domCalls (runCancelHandler h d)) = onCalls (domCalls d)"
  by (cases h; simp)+

lemma fold_cancel_frame:
  "listeners (fold runCancelHandler hs d) k \<le> listeners d k \<and>
   set (observers (fold runCancelHandler hs d)) \<subseteq> set (observers d) \<and>
   onCalls (domCalls (fold runCancelHandler hs d)) = onCalls (domCalls d)"
proof (induction hs arbitrary: d)
  case Nil
  then show ?case by simp
next
  case (Cons h hs)
  have a: "listeners (runCancelHandler h d) k \<le> listeners d k"
    and b: "set (observers (runCancelHandler h d)) \<subseteq> set (observers d)"
    and c: "onCalls (domCalls (runCancelHandler h d)) = onCalls (domCalls d)"
    by (rule runCancelHandler_frame)+
  from Cons.IH [of "runCancelHandler h d"] a b c show ?case
    by (auto intro: order_trans)
qed

lemma cancelObservers_frame:
  "listeners (cancelObservers d) k \<le> listeners d k"
  "set (observers (cancelObservers d)) \<subseteq> set (observers d)"
  "onCalls (domCalls (cancelObservers d)) = onCalls (domCalls d)"
  "intervals (cancelObservers d) = []"
  "cancelHandlers (cancelObservers d) = []"
  using fold_cancel_frame [of "cancelHandlers d" d k]
  by (simp_all add: cancelObservers_def)

lemma addCancelHandler_fields [simp]:
  "listeners (addCancelHandler h d) = listeners d"
  "domCalls (addCancelHandler h d) = domCalls d"
  "observers (addCancelHandler h d) = observers d"
  "intervals (addCancelHandler h d) = intervals d"
  "installedEvents (addCancelHandler h d) = installedEvents d"
  "nextObserver (addCancelHandler h d) = nextObserver d"
  "cancelHandlers (addCancelHandler h d) = cancelHandlers d @ [h]"
  by (simp_all add: addCancelHandler_def)

lemma getRoot_no_selector:
  "isEmpty (triggerSelector cfg) \<Longrightarrow> getRoot cfg en d = (Inr (Some [Document]), addCancelHandler Noop d)"
  by (simp add: getRoot_def)

lemma getRoot_dom:
  "snd (getRoot cfg en d) = addCancelHandler (if isEmpty (triggerSelector cfg) then Noop else CancelRun) d"
  by (simp add: getRoot_def Let_def split: sum.splits)

lemma getRoot_fails_iff:
  "(\<exists>e. fst (getRoot cfg en d) = Inl e) = rootWaitFails cfg en"
  by (auto simp: getRoot_def rootWaitFails_def isEmpty_def Let_def split: sum.splits option.splits)

section \<open>Kinds that require a selector\<close>

text \<open>
  Claim C8. For every instance whose kind is \<open>appear\<close> or one of the element-scoped native
  event kinds (click, dblclick, blur, mouseover, keydown, keyup, keypress, change) and
  that has no root selector, so that the root resolves to the document, \<open>run\<close> throws the
  error \<open>Trigger <kind> requires a selector\<close>. Nothing was attached before the throw: the
  state is the one left by \<open>cancelObservers\<close> and the registration of the no-op cancel
  handler, so no listener count grew, no observer and no interval loop was added, no
  \<open>on\<close> was called, and no firing ran.
\<close>

theorem run_without_selector_throws:
  assumes "trigger cfg = Some t"
    and "t \<in> set [Appear, Click, Dblclick, Blur, Mouseover, Keydown, Keyup, Keypress, Change]"
    and "isEmpty (triggerSelector cfg)"
  shows "run cfg en i =
      (Thrown (Error (''Trigger '' @ triggerName t @ '' requires a selector'')),
       i\<lparr>dom := addCancelHandler Noop (cancelObservers (dom i))\<rparr>)
    \<and> (\<forall>k. listeners (dom (snd (run cfg en i))) k \<le> listeners (dom i) k)
    \<and> set (observers (dom (snd (run cfg en i)))) \<subseteq> set (observers (dom i))
    \<and> intervals (dom (snd (run cfg en i))) = []
    \<and> onCalls (domCalls (dom (snd (run cfg en i)))) = onCalls (domCalls (dom i))
    \<and> firing (snd (run cfg en i)) = firing i"
proof -
  have r: "run cfg en i =
      (Thrown (Error (''Trigger '' @ triggerName t @ '' requires a selector'')),
       i\<lparr>dom := addCancelHandler Noop (cancelObservers (dom i))\<rparr>)"
    using assms
    by (auto simp: run_def getRoot_no_selector runSwitch_def assertElement_def isDocument_def)
  show ?thesis
    unfolding r by (simp add: cancelObservers_frame)
qed

theorem run_without_selector_throws_witness:
  "fst (run cfgClick env0 (newExtensionPoint [ext1]))
     = Thrown (Error ''Trigger click requires a selector'')
   \<and> onCalls (domCalls (dom (snd (run cfgClick env0 (newExtensionPoint [ext1]))))) = []
   \<and> observers (dom (snd (run cfgClick env0 (newExtensionPoint [ext1])))) = []"
  using run_without_selector_throws [of cfgClick Click env0 "newExtensionPoint [ext1]"]
  by (simp add: cfgClick_def cfg0_def isEmpty_def newExtensionPoint_def newDom_def
      cancelObservers_def)

section \<open>Interval triggers with a period that is not positive\<close>

lemma attachInterval_not_positive:
  "intervalMillis cfg \<le> 0 \<Longrightarrow> attachInterval cfg d = cancelObservers d"
  by (simp add: attachInterval_def Let_def)

lemma run_interval:
  assumes "trigger cfg = Some Interval" and "intervalMillis cfg \<le> 0"
  shows "run cfg en i =
     (case fst (getRoot cfg en (cancelObservers (dom i))) of
        Inl e \<Rightarrow> (Thrown e, i\<lparr>dom := snd (getRoot cfg en (cancelObservers (dom i)))\<rparr>)
      | Inr root \<Rightarrow>
          (Done, i\<lparr>dom := cancelObservers (snd (getRoot cfg en (cancelObservers (dom i))))\<rparr>))"
  using assms
  by (simp add: run_def runSwitch_def attachInterval_not_positive split: prod.splits sum.splits)

text \<open>
  Claim C9, as amended. For every instance of kind \<open>interval\<close> whose period is at most
  zero, \<open>run\<close> attaches no interval loop, so that no iteration of a loop runs the effect
  afterwards, attaches no listener and no observer, and performs no firing. \<open>run\<close>
  completes without error whenever the wait for the root selector does not fail with an
  error other than a cancellation, which is always so when no root selector is configured.
\<close>

theorem interval_not_positive_attaches_nothing:
  assumes "trigger cfg = Some Interval" and "intervalMillis cfg \<le> 0"
  shows "intervals (dom (snd (run cfg en i))) = []
    \<and> intervalIteration cfg en' (snd (run cfg en i)) = snd (run cfg en i)
    \<and> firing (snd (run cfg en i)) = firing i
    \<and> set (observers (dom (snd (run cfg en i)))) \<subseteq> set (observers (dom i))
    \<and> onCalls (domCalls (dom (snd (run cfg en i)))) = onCalls (domCalls (dom i))
    \<and> (\<not> rootWaitFails cfg en \<longrightarrow> fst (run cfg en i) = Done)"
proof -
  let ?d0 = "cancelObservers (dom i)"
  let ?g = "getRoot cfg en ?d0"
  have d1: "snd ?g = addCancelHandler (if isEmpty (triggerSelector cfg) then Noop else CancelRun) ?d0"
    by (rule getRoot_dom)
  have iv: "intervals (dom (snd (run cfg en i))) = []"
    unfolding run_interval [OF assms] d1
    by (simp add: cancelObservers_frame split: sum.splits)
  have fr: "firing (snd (run cfg en i)) = firing i"
    unfolding run_interval [OF assms] by (simp split: sum.splits)
  have s1: "set (observers ?d0) \<subseteq> set (observers (dom i))"
    by (rule cancelObservers_frame)
  have s2: "set (observers (cancelObservers (snd ?g))) \<subseteq> set (observers (snd ?g))"
    by (rule cancelObservers_frame)
  have ob: "set (observers (dom (snd (run cfg en i)))) \<subseteq> set (observers (dom i))"
    unfolding run_interval [OF assms]
    using s1 s2 by (auto simp: d1 split: sum.splits)
  have oc: "onCalls (domCalls (dom (snd (run cfg en i)))) = onCalls (domCalls (dom i))"
    unfolding run_interval [OF assms] d1
    by (simp add: cancelObservers_frame split: sum.splits)
  have ok: "\<not> rootWaitFails cfg en \<longrightarrow> fst (run cfg en i) = Done"
    unfolding run_interval [OF assms]
    using getRoot_fails_iff [of cfg en ?d0] by (auto split: sum.splits)
  from iv have "intervalIteration cfg en' (snd (run cfg en i)) = snd (run cfg en i)"
    by (simp add: intervalIteration_def)
  with iv fr ob oc ok show ?thesis by blast
qed

text \<open>
  The claim as stated has \<open>run\<close> complete without error for every such instance. With
  a root selector whose wait fails, \<open>getRoot\<close> throws the error again and \<open>run\<close> throws it.
\<close>

theorem interval_not_positive_run_throws_counterexample:
  "trigger cfgInterval = Some Interval \<and> intervalMillis cfgInterval \<le> 0
   \<and> fst (run cfgInterval envRootFails (newExtensionPoint [ext1])) = Thrown (Error ''selector'')"
  by (simp add: cfgInterval_def cfg0_def envRootFails_def env0_def newExtensionPoint_def
      newDom_def run_def getRoot_def isEmpty_def cancelObservers_def addCancelHandler_def Let_def)

theorem interval_not_positive_attaches_nothing_witness:
  "trigger (cfgInterval\<lparr>triggerSelector := None\<rparr>) = Some Interval
   \<and> intervalMillis (cfgInterval\<lparr>triggerSelector := None\<rparr>) \<le> 0
   \<and> fst (run (cfgInterval\<lparr>triggerSelector := None\<rparr>) env0 (newExtensionPoint [ext1])) = Done
   \<and> intervals (dom (snd (run (cfgInterval\<lparr>triggerSelector := None\<rparr>) env0
        (newExtensionPoint [ext1])))) = []
   \<and> effects (firing (snd (run (cfgInterval\<lparr>triggerSelector := None\<rparr>) env0
        (newExtensionPoint [ext1])))) = []"
  using interval_not_positive_attaches_nothing
    [of "cfgInterval\<lparr>triggerSelector := None\<rparr>" env0 "newExtensionPoint [ext1]" env0]
  by (simp add: cfgInterval_def cfg0_def rootWaitFails_def newExtensionPoint_def)

section \<open>Remote configuration without a trigger kind\<close>

lemma runSwitch_load:
  "trigger cfg = Some Load \<Longrightarrow>
   runSwitch cfg en (Some els) i =
     (Done, i\<lparr>firing := debouncedRunTriggersAndNotify cfg en els
                          \<lparr>nativeEvent = None, shouldRunExtension = None\<rparr> (firing i)\<rparr>)"
  by (simp add: runSwitch_def)









section \<open>At most one listener per node and event name\<close>

lemma count_list_distinct: "distinct els \<Longrightarrow> count_list els x = (if x \<in> set els then 1 else 0)"
  by (induction els) auto

lemma domInv_same:
  "listeners d' = listeners d \<Longrightarrow> domCalls d' = domCalls d \<Longrightarrow> domInv d' = domInv d"
  by (simp add: domInv_def)

lemma domInv_off: "domInv d \<Longrightarrow> domInv (off els ev d)"
  by (simp add: domInv_def everyOnAfterOff_def)

lemma domInv_on_off:
  assumes "distinct els" and "domInv d"
  shows "domInv (on els ev (off els ev d))"
proof -
  have "listeners (on els ev (off els ev d)) (n, name) \<le> 1" for n name
    using assms by (simp add: domInv_def count_list_distinct)
  moreover have "everyOnAfterOff (domCalls (on els ev (off els ev d)))"
    using assms(2) by (simp add: domInv_def everyOnAfterOff_def)
  ultimately show ?thesis by (simp add: domInv_def)
qed

lemma domInv_runCancelHandler: "domInv d \<Longrightarrow> domInv (runCancelHandler h d)"
  by (cases h) (simp_all add: domInv_off, simp add: domInv_def)

lemma domInv_fold_cancel: "domInv d \<Longrightarrow> domInv (fold runCancelHandler hs d)"
  by (induction hs arbitrary: d) (simp_all add: domInv_runCancelHandler)

lemma domInv_cancelObservers: "domInv d \<Longrightarrow> domInv (cancelObservers d)"
proof -
  assume "domInv d"
  then have "domInv (fold runCancelHandler (cancelHandlers d) d)" by (rule domInv_fold_cancel)
  then show ?thesis by (simp add: cancelObservers_def domInv_def)
qed

lemma domInv_addCancelHandler [simp]: "domInv (addCancelHandler h d) = domInv d"
  by (simp add: domInv_def)

lemma domInv_initialize: "domInv (snd (initialize sel cb d)) = domInv d"
  by (simp add: initialize_def domInv_def)

lemma domInv_attachDOMTrigger:
  assumes "case element of None \<Rightarrow> True | Some els \<Rightarrow> distinct els" and "domInv d"
  shows "domInv (snd (attachDOMTrigger cfg element watch d))"
proof (cases "domTrigger cfg")
  case None
  then show ?thesis using assms by (simp add: attachDOMTrigger_def)
next
  case (Some ev)
  show ?thesis
  proof (cases element)
    case None
    then show ?thesis using assms Some by (simp add: attachDOMTrigger_def)
  next
    case (Some els)
    with assms have dis: "distinct els" by simp
    let ?d3 = "(on els ev (off els ev d))\<lparr>installedEvents := setAdd ev (installedEvents (on els ev (off els ev d)))\<rparr>"
    have a: "domInv ?d3"
      using domInv_on_off [OF dis assms(2), of ev] by (simp add: domInv_def)
    have b: "domInv d4" if "initialize sel cb (cancelObservers ?d3) = (ob, d4)" for sel cb ob d4
      using domInv_cancelObservers [OF a] domInv_initialize [of sel cb "cancelObservers ?d3"] that
      by simp
    show ?thesis
      using a b \<open>domTrigger cfg = Some ev\<close> Some
      by (auto simp: attachDOMTrigger_def Let_def split: prod.splits)
  qed
qed

lemma domInv_attachDocumentTrigger: "domInv d \<Longrightarrow> domInv (attachDocumentTrigger t d)"
proof -
  assume a: "domInv d"
  have "domInv (on [Document] (triggerName t) (off [Document] (triggerName t) d))"
    by (rule domInv_on_off) (simp_all add: a)
  then show ?thesis
    by (simp add: attachDocumentTrigger_def Let_def domInv_def)
qed

lemma domInv_attachInterval: "domInv d \<Longrightarrow> domInv (attachInterval cfg d)"
  using domInv_cancelObservers [of d] by (simp add: attachInterval_def Let_def domInv_def)

lemma domInv_attachAppearTrigger: "domInv d \<Longrightarrow> domInv (attachAppearTrigger cfg els d)"
  using domInv_cancelObservers [of d]
  by (simp add: attachAppearTrigger_def Let_def domInv_def initialize_def split: prod.splits)

lemma domInv_attachInitializeTrigger:
  "domInv (dom i) \<Longrightarrow> domInv (dom (snd (attachInitializeTrigger cfg en root i)))"
  using domInv_cancelObservers [of "dom i"]
  by (auto simp: attachInitializeTrigger_def Let_def initialize_def domInv_def
      split: option.splits prod.splits)

lemma getRoot_distinct:
  "selectionOk cfg en \<Longrightarrow> fst (getRoot cfg en d) = Inr (Some els) \<Longrightarrow> distinct els"
  by (auto simp: getRoot_def selectionOk_def isEmpty_def Let_def split: if_splits sum.splits option.splits)

lemma domInv_getRoot: "domInv (snd (getRoot cfg en d)) = domInv d"
  by (simp add: getRoot_dom)

lemma assertElement_Inr: "assertElement t root = Inr els \<Longrightarrow> root = Some els"
  by (auto simp: assertElement_def split: option.splits if_splits)

lemma domInv_runSwitch:
  assumes "case root of None \<Rightarrow> True | Some els \<Rightarrow> distinct els" and "domInv (dom i)"
  shows "domInv (dom (snd (runSwitch cfg en root i)))"
proof (cases "trigger cfg")
  case None
  then show ?thesis using assms by (simp add: runSwitch_def)
next
  case (Some t)
  have dt: "domInv (snd (attachDOMTrigger cfg root w (dom i)))" for w
    by (rule domInv_attachDOMTrigger [OF assms])
  have dt': "domInv (snd (attachDOMTrigger cfg (Some els) w (dom i)))"
    if "assertElement t root = Inr els" for w els
    using dt [of w] assertElement_Inr [OF that] by simp
  show ?thesis
    using Some assms(2) dt dt'
    by (cases t)
      (auto simp: runSwitch_def liftDom_def domInv_attachInterval domInv_attachDocumentTrigger
        domInv_attachAppearTrigger domInv_attachInitializeTrigger
        split: option.splits sum.splits)
qed

lemma domInv_run:
  assumes "selectionOk cfg en" and "domInv (dom i)"
  shows "domInv (dom (snd (run cfg en i)))"
proof -
  obtain r d1 where g: "getRoot cfg en (cancelObservers (dom i)) = (r, d1)"
    by (cases "getRoot cfg en (cancelObservers (dom i))")
  have a: "domInv d1"
    using domInv_cancelObservers [OF assms(2)] domInv_getRoot [of cfg en "cancelObservers (dom i)"] g
    by simp
  show ?thesis
  proof (cases r)
    case (Inl e)
    then show ?thesis using a g by (simp add: run_def)
  next
    case (Inr root)
    have "case root of None \<Rightarrow> True | Some els \<Rightarrow> distinct els"
      using getRoot_distinct [OF assms(1), of "cancelObservers (dom i)"] Inr g
      by (simp split: option.splits)
    then have "domInv (dom (snd (runSwitch cfg en root (i\<lparr>dom := d1\<rparr>))))"
      by (rule domInv_runSwitch) (simp add: a)
    then show ?thesis using Inr g by (simp add: run_def)
  qed
qed

lemma domInv_fold_off: "domInv d \<Longrightarrow> domInv (fold (\<lambda>ev. off els ev) evs d)"
  by (induction evs arbitrary: d) (simp_all add: domInv_off)

lemma domInv_uninstall: "domInv d \<Longrightarrow> domInv (uninstall cfg en d)"
proof -
  assume "domInv d"
  then have a: "domInv (cancelObservers d)" by (rule domInv_cancelObservers)
  have "domInv (fold (\<lambda>ev. off els ev) evs (cancelObservers d))" for els evs
    using a by (rule domInv_fold_off)
  then have "domInv ((fold (\<lambda>ev. off els ev) evs (cancelObservers d))\<lparr>installedEvents := []\<rparr>)" for els evs
    by (simp add: domInv_def)
  with a show ?thesis by (simp add: uninstall_def Let_def)
qed

lemma domInv_observe [simp]: "domInv (observe a el d) = domInv d"
  by (simp add: observe_def domInv_def)

lemma domInv_mutationCallback:
  "domInv (dom i) \<Longrightarrow> domInv (dom (mutationCallback cfg en ob el i))"
  using domInv_attachDOMTrigger [of "Some [el]" "dom i" cfg False]
  by (auto simp: mutationCallback_def split: option.splits observer.splits mutation_callback.splits)

lemma dom_intersectionCallback [simp]: "dom (intersectionCallback cfg en ob els i) = dom i"
  by (simp add: intersectionCallback_def split: option.splits observer.splits)

lemma dom_deliver [simp]: "dom (deliver cfg en n name event i) = dom i"
  by (simp add: deliver_def)

lemma domInv_intervalIteration:
  "domInv (dom i) \<Longrightarrow> domInv (dom (intervalIteration cfg en i))"
  using domInv_getRoot [of cfg en "dom i"]
  by (auto simp: intervalIteration_def intervalEffect_def split: prod.splits sum.splits option.splits)

text \<open>An event on its path: the handler runs once per registration met on the way.\<close>

lemma dispatchEvent_calls:
  "dom (dispatchEvent cfg en path name event i) = dom i \<and>
   firing (dispatchEvent cfg en path name event i) =
     ((eventHandler cfg en event) ^^ sum_list (map (\<lambda>n. handlerCalls i n name) path)) (firing i)"
proof (induction path arbitrary: i)
  case Nil
  then show ?case by (simp add: dispatchEvent_def)
next
  case (Cons n path)
  let ?i1 = "deliver cfg en n name event i"
  have d: "dom ?i1 = dom i" by simp
  have h: "handlerCalls ?i1 m name = handlerCalls i m name" for m
    by (simp add: handlerCalls_def)
  have f: "firing ?i1 = ((eventHandler cfg en event) ^^ handlerCalls i n name) (firing i)"
    by (simp add: deliver_def)
  have u: "dispatchEvent cfg en (n # path) name event i = dispatchEvent cfg en path name event ?i1"
    by (simp add: dispatchEvent_def)
  have k: "(g ^^ (c + s)) x = (g ^^ s) ((g ^^ c) x)" for g :: "firing_state \<Rightarrow> firing_state" and c s x
    by (metis add.commute funpow_add comp_apply)
  from Cons.IH [of ?i1] show ?case
    unfolding u by (simp add: d h f k)
qed

lemma dom_dispatchEvent [simp]: "dom (dispatchEvent cfg en path name event i) = dom i"
  by (simp add: dispatchEvent_calls)

lemma calls_on_path:
  "\<forall>n. c n \<le> (1::nat) \<Longrightarrow> sum_list (map c path) = length (filter (\<lambda>n. c n = 1) path)"
proof (induction path)
  case Nil
  then show ?case by simp
next
  case (Cons n path)
  then have "c n = 0 \<or> c n = 1" by (metis le_Suc_eq le_zero_eq One_nat_def)
  with Cons show ?case by auto
qed

lemma domInv_step:
  "wellFormed cfg a \<Longrightarrow> domInv (dom i) \<Longrightarrow> domInv (dom (step cfg a i))"
  by (cases a)
    (simp_all add: domInv_run domInv_uninstall domInv_mutationCallback domInv_intervalIteration)

lemma domInv_exec:
  "\<forall>a \<in> set acts. wellFormed cfg a \<Longrightarrow> domInv (dom i) \<Longrightarrow> domInv (dom (exec cfg acts i))"
  unfolding exec_def
  by (induction acts arbitrary: i) (simp_all add: domInv_step)

lemma domInv_new: "domInv (dom (newExtensionPoint exts))"
  by (simp add: newExtensionPoint_def newDom_def domInv_def everyOnAfterOff_def)

text \<open>
  Claim C4, as amended. Start from a new instance and let any sequence of steps happen:
  calls of \<open>run\<close> and \<open>uninstall\<close>, reports of the mutation and intersection observers,
  native events, iterations of the interval loop, expiries of the debounce timer (the
  selections that \<open>$safeFind\<close> returns holding each element once, as jQuery selections
  do). Then at every node and for every event name the bound handler is registered at
  most once, and in the record of jQuery calls every \<open>on\<close> comes right after the \<open>off\<close>
  of the same elements and the same event name. So an event calls the handler at most
  once at each node it reaches, and an event travelling along a path calls it once for
  each node of the path that carries the handler.
\<close>

theorem at_most_one_listener:
  assumes "\<forall>a \<in> set acts. wellFormed cfg a"
  shows "(\<forall>n name. handlerCalls (exec cfg acts (newExtensionPoint exts)) n name \<le> 1)
    \<and> everyOnAfterOff (domCalls (dom (exec cfg acts (newExtensionPoint exts))))
    \<and> (\<forall>en n name event.
          firing (deliver cfg en n name event (exec cfg acts (newExtensionPoint exts)))
            = firing (exec cfg acts (newExtensionPoint exts))
        \<or> firing (deliver cfg en n name event (exec cfg acts (newExtensionPoint exts)))
            = eventHandler cfg en event (firing (exec cfg acts (newExtensionPoint exts))))
    \<and> (\<forall>en path name event.
          firing (dispatchEvent cfg en path name event (exec cfg acts (newExtensionPoint exts)))
            = ((eventHandler cfg en event) ^^
                 length (filter (\<lambda>n. handlerCalls (exec cfg acts (newExtensionPoint exts)) n name = 1)
                           path))
                (firing (exec cfg acts (newExtensionPoint exts))))"
proof -
  let ?i = "exec cfg acts (newExtensionPoint exts)"
  have inv: "domInv (dom ?i)"
    by (rule domInv_exec [OF assms domInv_new])
  then have one: "handlerCalls ?i n name \<le> 1" for n name
    by (simp add: domInv_def handlerCalls_def)
  have ord: "everyOnAfterOff (domCalls (dom ?i))"
    using inv by (simp add: domInv_def)
  have node: "firing (deliver cfg en n name event ?i) = firing ?i
      \<or> firing (deliver cfg en n name event ?i) = eventHandler cfg en event (firing ?i)"
    for en n name event
  proof -
    have "handlerCalls ?i n name = 0 \<or> handlerCalls ?i n name = 1"
      using one [of n name] by (metis le_Suc_eq le_zero_eq One_nat_def)
    then show ?thesis by (auto simp: deliver_def)
  qed
  have path: "firing (dispatchEvent cfg en path name event ?i)
      = ((eventHandler cfg en event) ^^
           length (filter (\<lambda>n. handlerCalls ?i n name = 1) path)) (firing ?i)"
    for en path name event
  proof -
    have "\<forall>n. handlerCalls ?i n name \<le> 1"
      using one by blast
    then have "sum_list (map (\<lambda>n. handlerCalls ?i n name) path)
        = length (filter (\<lambda>n. handlerCalls ?i n name = 1) path)"
      by (rule calls_on_path)
    then show ?thesis by (simp add: dispatchEvent_calls)
  qed
  from one ord node path show ?thesis by blast
qed

lemmas machine_defs =
  exec_def run_def runSwitch_def getRoot_def isEmpty_def cancelObservers_def
  addCancelHandler_def assertElement_def isDocument_def attachDOMTrigger_def domTrigger_def
  liftDom_def initialize_def off_def on_def setAdd_def mutationCallback_def handlerCalls_def
  dispatchEvent_def deliver_def newExtensionPoint_def newDom_def

text \<open>
  The claim as stated has a single external event fire an automation at most once. With
  two matches of the selector, one inside the other, both carry the handler; a click on
  the inner one reaches both, and the automation runs twice for the same target.
\<close>

theorem single_event_fires_twice_counterexample:
  "pipelineRuns (effects (firing (exec cfgWatch nestedClick (newExtensionPoint [ext1]))))
     = [''e1'', ''e1'']
   \<and> readerReads (effects (firing (exec cfgWatch nestedClick (newExtensionPoint [ext1]))))
     = [Element 2, Element 2]
   \<and> map (\<lambda>n. handlerCalls (exec cfgWatch nestedClick (newExtensionPoint [ext1])) n ''click'')
        [Element 2, Element 1, Document] = [1, 1, 0]"
  by (simp add: nestedClick_def clickAt2_def machine_defs firing_defs cfgWatch_def cfg0_def
      envTwo_def env0_def ext1_def clickEvent_def)

lemma rearm_run:
  "domCalls (dom (exec cfgWatch rearm (newExtensionPoint [ext1]))) =
     [Off [Element 1, Element 2] ''click'', On [Element 1, Element 2] ''click'',
      Off [Element 1, Element 2] ''click'', On [Element 1, Element 2] ''click'',
      Off [Element 3] ''click'', On [Element 3] ''click'',
      Off [Element 1] ''click'', On [Element 1] ''click'']
   \<and> map (\<lambda>n. handlerCalls (exec cfgWatch rearm (newExtensionPoint [ext1])) n ''click'')
        [Element 1, Element 2, Element 3, Document] = [1, 1, 1, 0]"
  by (simp add: rearm_def machine_defs cfgWatch_def cfg0_def envTwo_def env0_def)

theorem at_most_one_listener_witness:
  "wellFormed cfgWatch (ARun envTwo)
   \<and> handlerCalls (exec cfgWatch rearm (newExtensionPoint [ext1])) (Element 1) ''click'' = 1
   \<and> everyOnAfterOff (domCalls (dom (exec cfgWatch rearm (newExtensionPoint [ext1]))))
   \<and> pipelineRuns (effects (firing (dispatchEvent cfgWatch envTwo [Element 2, Document] ''click''
        clickAt2 (exec cfgWatch rearm (newExtensionPoint [ext1]))))) = [''e1'']"
proof -
  have w: "\<forall>a \<in> set rearm. wellFormed cfgWatch a"
    by (simp add: rearm_def selectionOk_def cfgWatch_def cfg0_def envTwo_def env0_def)
  have o: "wellFormed cfgWatch (ARun envTwo)"
    by (simp add: selectionOk_def cfgWatch_def cfg0_def envTwo_def env0_def)
  have f: "firing (exec cfgWatch rearm (newExtensionPoint [ext1])) = firing (newExtensionPoint [ext1])"
    by (simp add: rearm_def machine_defs cfgWatch_def cfg0_def envTwo_def env0_def)
  have p: "pipelineRuns (effects (eventHandler cfgWatch envTwo clickAt2
        (firing (newExtensionPoint [ext1])))) = [''e1'']"
    by (simp add: clickAt2_def newExtensionPoint_def firing_defs cfgWatch_def cfg0_def envTwo_def
        env0_def ext1_def clickEvent_def)
  from at_most_one_listener [OF w, of "[ext1]"] rearm_run o f p show ?thesis
    by simp
qed


end
